theory Spec2Isabelle
  imports Complex_Main "HOL-Library.Multiset"
begin

section \<open>Data model\<close>

text \<open>
  The services of the repository (\<^verbatim>\<open>src/services/stock_service.py\<close>, built on pandas, and
  \<^verbatim>\<open>src/services/alpha_vantage_service.py\<close>, plain Python) work on daily bars. Finite numbers
  are modelled as exact reals: rounding, overflow and signed zeros of binary floating point are
  outside the model, except in the moving average of the Alpha Vantage service, whose computed
  value is a parameter. What pandas adds to the finite numbers is kept as data: a cell of a derived
  column is a finite number, an infinity, or \<open>NaN\<close>, which is also pandas' marker of a missing
  (undefined) value; \<^verbatim>\<open>pd.notna\<close> is false exactly on it.
\<close>

datatype pyfloat = Fin real | PosInf | NegInf | NaN

fun notna :: "pyfloat \<Rightarrow> bool" where
  "notna NaN = False"
| "notna _ = True"

fun fneg :: "pyfloat \<Rightarrow> pyfloat" where
  "fneg (Fin a) = Fin (- a)"
| "fneg PosInf = NegInf"
| "fneg NegInf = PosInf"
| "fneg NaN = NaN"

fun fadd :: "pyfloat \<Rightarrow> pyfloat \<Rightarrow> pyfloat" where
  "fadd (Fin a) (Fin b) = Fin (a + b)"
| "fadd NaN _ = NaN"
| "fadd _ NaN = NaN"
| "fadd PosInf NegInf = NaN"
| "fadd NegInf PosInf = NaN"
| "fadd PosInf _ = PosInf"
| "fadd _ PosInf = PosInf"
| "fadd NegInf _ = NegInf"
| "fadd _ NegInf = NegInf"

definition fsub :: "pyfloat \<Rightarrow> pyfloat \<Rightarrow> pyfloat" where
  "fsub x y = fadd x (fneg y)"

text \<open>Multiplication by a finite constant, as in \<^verbatim>\<open>std * std_dev\<close> and \<^verbatim>\<open>volume_sma_20 * 1.5\<close>.\<close>

fun fscale :: "pyfloat \<Rightarrow> real \<Rightarrow> pyfloat" where
  "fscale (Fin a) c = Fin (a * c)"
| "fscale NaN c = NaN"
| "fscale PosInf c = (if c > 0 then PosInf else if c < 0 then NegInf else NaN)"
| "fscale NegInf c = (if c > 0 then NegInf else if c < 0 then PosInf else NaN)"

text \<open>
  Division as numpy and pandas do it on floats: a finite non-zero number over zero is an
  infinity, zero over zero is \<open>NaN\<close>, and nothing is raised.
\<close>

fun fdiv :: "pyfloat \<Rightarrow> pyfloat \<Rightarrow> pyfloat" where
  "fdiv (Fin a) (Fin b) =
     (if b \<noteq> 0 then Fin (a / b)
      else if a > 0 then PosInf else if a < 0 then NegInf else NaN)"
| "fdiv NaN _ = NaN"
| "fdiv _ NaN = NaN"
| "fdiv (Fin a) PosInf = Fin 0"
| "fdiv (Fin a) NegInf = Fin 0"
| "fdiv PosInf (Fin b) = (if b \<ge> 0 then PosInf else NegInf)"
| "fdiv NegInf (Fin b) = (if b \<ge> 0 then NegInf else PosInf)"
| "fdiv PosInf PosInf = NaN"
| "fdiv PosInf NegInf = NaN"
| "fdiv NegInf PosInf = NaN"
| "fdiv NegInf NegInf = NaN"

text \<open>Comparisons: every comparison with \<open>NaN\<close> is false.\<close>

fun fgt :: "pyfloat \<Rightarrow> pyfloat \<Rightarrow> bool" where
  "fgt (Fin a) (Fin b) = (a > b)"
| "fgt NaN _ = False"
| "fgt _ NaN = False"
| "fgt PosInf PosInf = False"
| "fgt PosInf _ = True"
| "fgt _ PosInf = False"
| "fgt NegInf _ = False"
| "fgt _ NegInf = True"

fun fle :: "pyfloat \<Rightarrow> pyfloat \<Rightarrow> bool" where
  "fle (Fin a) (Fin b) = (a \<le> b)"
| "fle NaN _ = False"
| "fle _ NaN = False"
| "fle NegInf _ = True"
| "fle _ PosInf = True"
| "fle PosInf _ = False"
| "fle _ NegInf = False"

text \<open>
  A bar is one trading day. The date is a day number, prices are finite, the volume is a
  non-negative integer (the \<^verbatim>\<open>int64\<close> column of the provider, \<^verbatim>\<open>int(...)\<close> in the Alpha
  Vantage parser).
\<close>

record bar =
  date :: int
  open_p :: real
  high :: real
  low :: real
  close :: real
  volume :: nat

text \<open>A row of the data frame after \<^verbatim>\<open>calculate_technical_indicators\<close>.\<close>

record frame = bar +
  sma_20 :: pyfloat
  sma_50 :: pyfloat
  rsi :: pyfloat
  macd :: pyfloat
  macd_signal :: pyfloat
  bb_upper :: pyfloat
  bb_lower :: pyfloat
  volume_sma_20 :: pyfloat
  volume_ratio :: pyfloat

datatype signal_type =
  volume_surge | sma_breakout | bollinger_breakout | hammer_reversal | macd_golden_cross

text \<open>
  A signal dictionary. The \<^verbatim>\<open>description\<close> string (formatted text for display) is not
  modelled; \<open>sig_extra\<close> is the additional key of the Alpha Vantage signals
  (\<^verbatim>\<open>volume_ratio\<close> or \<^verbatim>\<open>sma_value\<close>), absent in the pandas service.
\<close>

record signal =
  sig_date :: int
  sig_type :: signal_type
  strength :: real
  price :: real
  sig_volume :: nat
  sig_extra :: "real option"

definition mk_signal :: "'a bar_scheme \<Rightarrow> signal_type \<Rightarrow> real \<Rightarrow> real option \<Rightarrow> signal" where
  "mk_signal row t s e =
     \<lparr>sig_date = date row, sig_type = t, strength = s, price = close row,
      sig_volume = volume row, sig_extra = e\<rparr>"

section \<open>Reversal signals (\<^verbatim>\<open>StockDataService.detect_reversal_signals\<close>)\<close>

definition body :: "'a bar_scheme \<Rightarrow> real" where
  "body current = \<bar>close current - open_p current\<bar>"

definition upper_shadow :: "'a bar_scheme \<Rightarrow> real" where
  "upper_shadow current = high current - max (close current) (open_p current)"

definition lower_shadow :: "'a bar_scheme \<Rightarrow> real" where
  "lower_shadow current = min (close current) (open_p current) - low current"

text \<open>The condition of the hammer branch: three comparisons, no quotient.\<close>

definition hammer_test :: "'a bar_scheme \<Rightarrow> bool" where
  "hammer_test current \<longleftrightarrow>
     lower_shadow current > body current * 2 \<and> upper_shadow current < body current * 0.5 \<and>
     close current > open_p current"

definition macd_cross_test :: "frame \<Rightarrow> frame \<Rightarrow> bool" where
  "macd_cross_test current prev1 \<longleftrightarrow>
     notna (macd current) \<and> notna (macd_signal current) \<and>
     fgt (macd current) (macd_signal current) \<and>
     fle (macd prev1) (macd_signal prev1)"

text \<open>One pass of the loop body at index \<open>i\<close>: the signals it appends, in order.\<close>

definition reversal_step :: "frame list \<Rightarrow> nat \<Rightarrow> signal list" where
  "reversal_step data i =
     (let current = data ! i; prev1 = data ! (i - 1) in
      (if hammer_test current then [mk_signal current hammer_reversal 65 None] else []) @
      (if macd_cross_test current prev1 then [mk_signal current macd_golden_cross 55 None] else []))"

definition detect_reversal_signals :: "frame list \<Rightarrow> signal list" where
  "detect_reversal_signals data =
     (if length data < 30 then []
      else concat (map (reversal_step data) [2..<length data]))"

section \<open>Indicator calculator (\<^verbatim>\<open>StockDataService.calculate_technical_indicators\<close>)\<close>

fun fin_vals :: "pyfloat list \<Rightarrow> real list option" where
  "fin_vals [] = Some []"
| "fin_vals (Fin a # xs) = map_option ((#) a) (fin_vals xs)"
| "fin_vals (_ # xs) = None"

definition mean :: "real list \<Rightarrow> real" where
  "mean xs = sum_list xs / real (length xs)"

text \<open>
  Sample standard deviation (pandas' default \<^verbatim>\<open>ddof=1\<close>). The square root is the one of
  the reals, so the Bollinger columns are not computed by code equations; the other columns of
  a concrete input are evaluated through the lemmas that project the frame on one column.
\<close>

definition sample_std :: "real list \<Rightarrow> real" where
  "sample_std xs = sqrt (sum_list (map (\<lambda>x. (x - mean xs)\<^sup>2) xs) / (real (length xs) - 1))"

text \<open>The \<open>w\<close> entries of a series that end at index \<open>i\<close>, for \<open>w \<le> i + 1\<close>.\<close>

definition window :: "nat \<Rightarrow> 'a list \<Rightarrow> nat \<Rightarrow> 'a list" where
  "window w xs i = take w (drop (i + 1 - w) xs)"

text \<open>
  \<^verbatim>\<open>series.rolling(window=w)\<close> followed by an aggregate: with the default
  \<^verbatim>\<open>min_periods = w\<close> the result is missing until \<open>w\<close> observations are there, and
  wherever the window holds a missing value. (Infinite entries never reach a window here;
  the model gives \<open>NaN\<close> for them.)
\<close>

definition rolling :: "(real list \<Rightarrow> real) \<Rightarrow> nat \<Rightarrow> pyfloat list \<Rightarrow> pyfloat list" where
  "rolling agg w xs =
     map (\<lambda>i. if i + 1 < w then NaN
              else (case fin_vals (window w xs i) of None \<Rightarrow> NaN | Some vs \<Rightarrow> Fin (agg vs)))
       [0..<length xs]"

definition rolling_mean :: "nat \<Rightarrow> pyfloat list \<Rightarrow> pyfloat list" where
  "rolling_mean = rolling mean"

definition rolling_std :: "nat \<Rightarrow> pyfloat list \<Rightarrow> pyfloat list" where
  "rolling_std = rolling sample_std"

text \<open>\<^verbatim>\<open>prices.diff()\<close>: missing at the first index.\<close>

definition diff :: "real list \<Rightarrow> pyfloat list" where
  "diff prices =
     map (\<lambda>i. if i = 0 then NaN else Fin (prices ! i - prices ! (i - 1))) [0..<length prices]"

text \<open>
  \<^verbatim>\<open>_calculate_rsi\<close>. \<^verbatim>\<open>delta.where(cond, 0)\<close> keeps an entry where the condition
  holds and puts 0 elsewhere, also where \<open>delta\<close> is missing.
\<close>

definition rsi_gain :: "real list \<Rightarrow> nat \<Rightarrow> pyfloat list" where
  "rsi_gain prices period =
     rolling_mean period (map (\<lambda>d. if fgt d (Fin 0) then d else Fin 0) (diff prices))"

definition rsi_loss :: "real list \<Rightarrow> nat \<Rightarrow> pyfloat list" where
  "rsi_loss prices period =
     rolling_mean period (map (\<lambda>d. fneg (if fgt (Fin 0) d then d else Fin 0)) (diff prices))"

definition calculate_rsi :: "real list \<Rightarrow> nat \<Rightarrow> pyfloat list" where
  "calculate_rsi prices period =
     map (\<lambda>(gain, loss).
            let rs = fdiv gain loss in fsub (Fin 100) (fdiv (Fin 100) (fadd (Fin 1) rs)))
       (zip (rsi_gain prices period) (rsi_loss prices period))"

text \<open>
  \<^verbatim>\<open>series.ewm(span=n).mean()\<close> with pandas' defaults (\<^verbatim>\<open>adjust=True\<close>,
  \<^verbatim>\<open>min_periods=0\<close>) on a series without missing values, as pandas computes it: the
  running weighted average starts at the first value; at each step the old weight decays by
  \<open>1 - alpha\<close>, the new observation enters with weight 1.
\<close>

fun ewm_loop :: "real \<Rightarrow> real \<Rightarrow> real \<Rightarrow> real list \<Rightarrow> real list" where
  "ewm_loop alpha weighted old_wt [] = []"
| "ewm_loop alpha weighted old_wt (cur # rest) =
     (let old_wt' = old_wt * (1 - alpha);
          weighted' = (old_wt' * weighted + cur) / (old_wt' + 1)
      in weighted' # ewm_loop alpha weighted' (old_wt' + 1) rest)"

definition ewm_mean :: "nat \<Rightarrow> real list \<Rightarrow> real list" where
  "ewm_mean span_n xs =
     (case xs of [] \<Rightarrow> [] | x # rest \<Rightarrow> x # ewm_loop (2 / (real span_n + 1)) x 1 rest)"

text \<open>\<^verbatim>\<open>_calculate_macd\<close>: the pair of the \<^verbatim>\<open>macd\<close> and \<^verbatim>\<open>signal\<close> series.\<close>

definition calculate_macd :: "real list \<Rightarrow> nat \<Rightarrow> nat \<Rightarrow> nat \<Rightarrow> real list \<times> real list" where
  "calculate_macd prices fast slow signal_n =
     (let ema_fast = ewm_mean fast prices;
          ema_slow = ewm_mean slow prices;
          macd_s = map (\<lambda>(a, b). a - b) (zip ema_fast ema_slow);
          macd_signal_s = ewm_mean signal_n macd_s
      in (macd_s, macd_signal_s))"

text \<open>\<^verbatim>\<open>_calculate_bollinger_bands\<close>: the pair of the upper and lower band.\<close>

definition calculate_bollinger_bands ::
  "pyfloat list \<Rightarrow> nat \<Rightarrow> real \<Rightarrow> pyfloat list \<times> pyfloat list" where
  "calculate_bollinger_bands prices period std_dev =
     (let sma = rolling_mean period prices;
          std = rolling_std period prices
      in (map (\<lambda>(m, s). fadd m (fscale s std_dev)) (zip sma std),
          map (\<lambda>(m, s). fsub m (fscale s std_dev)) (zip sma std)))"

definition calculate_technical_indicators :: "bar list \<Rightarrow> frame list" where
  "calculate_technical_indicators data =
     (if data = [] then []
      else
        let closes = map close data;
            close_s = map Fin closes;
            volume_s = map (\<lambda>b. Fin (real (volume b))) data;
            sma_20_s = rolling_mean 20 close_s;
            sma_50_s = rolling_mean 50 close_s;
            rsi_s = calculate_rsi closes 14;
            macd_data = calculate_macd closes 12 26 9;
            bb_data = calculate_bollinger_bands close_s 20 2;
            volume_sma_20_s = rolling_mean 20 volume_s;
            volume_ratio_s = map (\<lambda>(v, m). fdiv v m) (zip volume_s volume_sma_20_s)
        in map (\<lambda>i.
             \<lparr>date = date (data ! i), open_p = open_p (data ! i), high = high (data ! i),
              low = low (data ! i), close = close (data ! i), volume = volume (data ! i),
              sma_20 = sma_20_s ! i, sma_50 = sma_50_s ! i, rsi = rsi_s ! i,
              macd = Fin (fst macd_data ! i), macd_signal = Fin (snd macd_data ! i),
              bb_upper = fst bb_data ! i, bb_lower = snd bb_data ! i,
              volume_sma_20 = volume_sma_20_s ! i, volume_ratio = volume_ratio_s ! i\<rparr>)
           [0..<length data])"

section \<open>Volume surge and breakout signals of \<^verbatim>\<open>StockDataService\<close>\<close>

text \<open>
  The body of the loop over \<^verbatim>\<open>surge_days\<close>. The strength is Python's
  \<^verbatim>\<open>min(volume_ratio * 20, 100)\<close>. A row whose ratio is \<open>NegInf\<close> never passes the
  selection \<^verbatim>\<open>volume_ratio > threshold\<close>, so that case emits nothing.
\<close>

definition surge_row :: "frame \<Rightarrow> signal list" where
  "surge_row row =
     (case volume_ratio row of
        NaN \<Rightarrow> []
      | Fin r \<Rightarrow> [mk_signal row volume_surge (min (r * 20) 100) None]
      | PosInf \<Rightarrow> [mk_signal row volume_surge 100 None]
      | NegInf \<Rightarrow> [])"

definition detect_volume_surge :: "frame list \<Rightarrow> real \<Rightarrow> signal list" where
  "detect_volume_surge data threshold =
     (let surge_days = filter (\<lambda>row. fgt (volume_ratio row) (Fin threshold)) data
      in concat (map surge_row surge_days))"

definition sma_break_test :: "frame \<Rightarrow> frame \<Rightarrow> bool" where
  "sma_break_test current previous \<longleftrightarrow>
     fgt (Fin (close current)) (sma_20 current) \<and>
     fle (Fin (close previous)) (sma_20 previous) \<and>
     notna (sma_20 current)"

definition bollinger_test :: "frame \<Rightarrow> frame \<Rightarrow> bool" where
  "bollinger_test current previous \<longleftrightarrow>
     notna (bb_upper current) \<and>
     fgt (Fin (close current)) (bb_upper current) \<and>
     fle (Fin (close previous)) (bb_upper previous)"

definition breakout_step :: "frame list \<Rightarrow> nat \<Rightarrow> signal list" where
  "breakout_step data i =
     (let current = data ! i; previous = data ! (i - 1) in
      (if sma_break_test current previous
       then [mk_signal current sma_breakout
               (if fgt (Fin (real (volume current))) (fscale (volume_sma_20 current) 1.5)
                then 60 + 20 else 60) None]
       else []) @
      (if bollinger_test current previous
       then [mk_signal current bollinger_breakout 70 None] else []))"

definition detect_breakout_signals :: "frame list \<Rightarrow> signal list" where
  "detect_breakout_signals data =
     (if length data < 50 then []
      else concat (map (breakout_step data) [50..<length data]))"

section \<open>Signals of \<^verbatim>\<open>AlphaVantageService\<close>\<close>

text \<open>
  Plain Python on a list of dictionaries: no missing values, and a division by zero would
  raise. \<^verbatim>\<open>range(i-19, i)\<close> is the 19 days before day \<open>i\<close>; their sum is divided by 20.
\<close>

datatype py_error = ZeroDivisionError

definition av_avg_volume :: "bar list \<Rightarrow> nat \<Rightarrow> real" where
  "av_avg_volume daily_data i =
     real (sum_list (map (\<lambda>j. volume (daily_data ! j)) [i - 19..<i])) / 20"

definition av_surge_step :: "bar list \<Rightarrow> real \<Rightarrow> nat \<Rightarrow> signal list" where
  "av_surge_step daily_data threshold i =
     (let current_volume = volume (daily_data ! i);
          avg_volume = av_avg_volume daily_data i
      in if avg_volume > 0
         then (let volume_ratio = real current_volume / avg_volume
               in if volume_ratio \<ge> threshold
                  then [mk_signal (daily_data ! i) volume_surge (min (volume_ratio * 20) 100)
                          (Some volume_ratio)]
                  else [])
         else [])"

definition calculate_volume_surge :: "bar list \<Rightarrow> real \<Rightarrow> signal list" where
  "calculate_volume_surge daily_data threshold =
     (if length daily_data < 20 then []
      else concat (map (av_surge_step daily_data threshold) [19..<length daily_data]))"

text \<open>
  \<^verbatim>\<open>calculate_sma_signals\<close> compares a close with the average of 20 closes that may all
  be equal to it, so the last bit of the computed average decides. The average is therefore
  not taken over the reals here: \<open>sma_of values period\<close> stands for the double that Python's
  \<^verbatim>\<open>sum(values) / period\<close> returns on the closes \<open>values\<close>, whatever its rounding, and is a
  parameter of the model. The comparisons of two doubles are exact. \<open>exact_sma\<close> is the
  average without rounding.
\<close>

definition exact_sma :: "real list \<Rightarrow> nat \<Rightarrow> real" where
  "exact_sma values period = sum_list values / real period"

definition av_sma_step ::
  "(real list \<Rightarrow> nat \<Rightarrow> real) \<Rightarrow> bar list \<Rightarrow> nat \<Rightarrow> nat \<Rightarrow> signal list" where
  "av_sma_step sma_of daily_data period i =
     (let current_price = close (daily_data ! i);
          prev_price = close (daily_data ! (i - 1));
          current_sma =
            sma_of (map (\<lambda>j. close (daily_data ! j)) [i - period + 1..<i + 1]) period;
          prev_sma = sma_of (map (\<lambda>j. close (daily_data ! j)) [i - period..<i]) period
      in if prev_price \<le> prev_sma \<and> current_price > current_sma
         then [mk_signal (daily_data ! i) sma_breakout 60 (Some current_sma)]
         else [])"

text \<open>With \<open>period = 0\<close> on a non-empty list the first division raises.\<close>

definition calculate_sma_signals ::
  "(real list \<Rightarrow> nat \<Rightarrow> real) \<Rightarrow> bar list \<Rightarrow> nat \<Rightarrow> py_error + signal list" where
  "calculate_sma_signals sma_of daily_data period =
     (if length daily_data < period + 1 then Inr []
      else if period = 0 then Inl ZeroDivisionError
      else Inr (concat (map (av_sma_step sma_of daily_data period)
                  [period..<length daily_data])))"

section \<open>Composite score (\<^verbatim>\<open>analyze_stock\<close> of both services)\<close>

text \<open>
  Python's \<^verbatim>\<open>round(x, 2)\<close> on the exact value: to the nearest multiple of 1/100, a tie to
  the even one.
\<close>

definition round_half_even :: "real \<Rightarrow> int" where
  "round_half_even x =
     (let f = \<lfloor>x\<rfloor>; d = x - of_int f
      in if d < 1 / 2 then f else if d > 1 / 2 then f + 1 else if even f then f else f + 1)"

definition py_round2 :: "real \<Rightarrow> real" where
  "py_round2 x = of_int (round_half_even (x * 100)) / 100"

text \<open>
  Both services filter and average with the same expressions; \<open>today\<close> is the day number of
  \<^verbatim>\<open>datetime.now()\<close>, and the difference of two dates in days is the difference of their
  day numbers.
\<close>

definition recent_signals :: "int \<Rightarrow> signal list \<Rightarrow> signal list" where
  "recent_signals today all_signals = filter (\<lambda>s. today - sig_date s \<le> 30) all_signals"

definition total_score :: "int \<Rightarrow> signal list \<Rightarrow> real" where
  "total_score today all_signals =
     (let recent = recent_signals today all_signals
      in if recent \<noteq> [] then sum_list (map strength recent) / real (length recent) else 0)"

definition analyze_stock_score :: "int \<Rightarrow> signal list \<Rightarrow> real" where
  "analyze_stock_score today all_signals = py_round2 (total_score today all_signals)"

text \<open>The signal lists the two services score.\<close>

definition all_signals_yf :: "bar list \<Rightarrow> signal list" where
  "all_signals_yf bars =
     (let data = calculate_technical_indicators bars
      in detect_volume_surge data 2.0 @ detect_breakout_signals data @
         detect_reversal_signals data)"

definition all_signals_av ::
  "(real list \<Rightarrow> nat \<Rightarrow> real) \<Rightarrow> bar list \<Rightarrow> py_error + signal list" where
  "all_signals_av sma_of daily_data =
     (case calculate_sma_signals sma_of daily_data 20 of
        Inl e \<Rightarrow> Inl e
      | Inr sma_signals \<Rightarrow> Inr (calculate_volume_surge daily_data 2.0 @ sma_signals))"

text \<open>
  \<^verbatim>\<open>StockDataService.analyze_stock\<close>. \<open>history\<close> is what \<^verbatim>\<open>get_historical_data\<close> returns
  (\<open>None\<close> when the provider fails or has no rows); the answer \<open>None\<close> is the error
  dictionary. The dictionary \<^verbatim>\<open>technical_indicators\<close> holds the values of the latest row
  as they are in the frame, missing values included.
\<close>

record technical_indicators =
  ti_rsi :: pyfloat
  ti_macd :: pyfloat
  ti_sma_20 :: pyfloat
  ti_sma_50 :: pyfloat
  ti_volume_ratio :: pyfloat

record stock_analysis =
  an_symbol :: string
  an_date :: int
  an_close :: real
  an_volume :: nat
  an_change_pct :: pyfloat
  an_signals :: "signal list"
  an_score :: real
  an_indicators :: technical_indicators

definition analyze_stock_yf :: "string \<Rightarrow> int \<Rightarrow> bar list option \<Rightarrow> stock_analysis option" where
  "analyze_stock_yf symbol today history =
     (case history of
        None \<Rightarrow> None
      | Some bars \<Rightarrow>
          if bars = [] then None
          else
            let data = calculate_technical_indicators bars;
                all_signals = all_signals_yf bars;
                latest = last data
            in Some
                 \<lparr>an_symbol = symbol, an_date = date latest, an_close = close latest,
                  an_volume = volume latest,
                  an_change_pct =
                    (if length data > 1
                     then fscale
                            (fdiv (Fin (close latest - close (data ! (length data - 2))))
                               (Fin (close (data ! (length data - 2))))) 100
                     else Fin 0),
                  an_signals = drop (length all_signals - 10) all_signals,
                  an_score = analyze_stock_score today all_signals,
                  an_indicators =
                    \<lparr>ti_rsi = rsi latest, ti_macd = macd latest, ti_sma_20 = sma_20 latest,
                     ti_sma_50 = sma_50 latest, ti_volume_ratio = volume_ratio latest\<rparr>\<rparr>)"

section \<open>Ranking (\<^verbatim>\<open>get_potential_stocks\<close>)\<close>

text \<open>
  Fetching and analysing one symbol is the external collaborator: it raises, returns an
  error dictionary, or returns an analysis, of which the ranker reads the fields below.
\<close>

record analysis =
  a_score :: real
  a_close :: real
  a_change_pct :: real
  a_signals :: "signal list"
  a_rsi :: pyfloat
  a_volume_ratio :: real

datatype outcome = Raised | ErrorDict | Analysis analysis

text \<open>
  A row of the answer. Its last key is \<^verbatim>\<open>rsi\<close> in the pandas service and
  \<^verbatim>\<open>volume_ratio\<close> in the Alpha Vantage service: \<open>r_indicator\<close>.
\<close>

record result =
  r_symbol :: string
  r_name :: string
  r_score :: real
  r_latest_price :: real
  r_change_pct :: real
  r_recent_signals :: nat
  r_indicator :: pyfloat

definition mk_result :: "string \<Rightarrow> string \<Rightarrow> analysis \<Rightarrow> pyfloat \<Rightarrow> result" where
  "mk_result symbol name a ind =
     \<lparr>r_symbol = symbol, r_name = name, r_score = a_score a, r_latest_price = a_close a,
      r_change_pct = a_change_pct a, r_recent_signals = length (a_signals a),
      r_indicator = ind\<rparr>"

text \<open>Python's \<^verbatim>\<open>xs[:n]\<close> for an integer \<open>n\<close>: a negative \<open>n\<close> counts from the end.\<close>

definition py_take :: "int \<Rightarrow> 'a list \<Rightarrow> 'a list" where
  "py_take n xs = (if n \<ge> 0 then take (nat n) xs else take (nat (int (length xs) + n)) xs)"

text \<open>
  \<^verbatim>\<open>results.sort(key=lambda x: x['score'], reverse=True)\<close>: Python's sort is stable, also
  with \<^verbatim>\<open>reverse=True\<close>; a stable ascending sort on the negated key is the same order.
\<close>

definition sort_by_score_desc :: "result list \<Rightarrow> result list" where
  "sort_by_score_desc results = sort_key (\<lambda>x. - r_score x) results"

text \<open>\<^verbatim>\<open>StockDataService.get_potential_stocks\<close>; \<open>info\<close> is \<^verbatim>\<open>get_stock_info\<close> (the name).\<close>

definition yf_entry :: "(string \<Rightarrow> outcome) \<Rightarrow> (string \<Rightarrow> string option) \<Rightarrow> string \<Rightarrow> result list" where
  "yf_entry analyze info symbol =
     (case analyze symbol of
        Raised \<Rightarrow> []
      | ErrorDict \<Rightarrow> []
      | Analysis a \<Rightarrow>
          if a_score a > 30
          then (case info symbol of None \<Rightarrow> []
                | Some name \<Rightarrow> [mk_result symbol name a (a_rsi a)])
          else [])"

definition get_potential_stocks_yf ::
  "(string \<Rightarrow> outcome) \<Rightarrow> (string \<Rightarrow> string option) \<Rightarrow> string list \<Rightarrow> int \<Rightarrow> result list" where
  "get_potential_stocks_yf analyze info stocks limit =
     (let results = concat (map (yf_entry analyze info) (py_take 20 stocks))
      in py_take limit (sort_by_score_desc results))"

text \<open>\<^verbatim>\<open>AlphaVantageService.get_potential_stocks\<close>: at most five symbols are analysed.\<close>

definition av_entry :: "(string \<Rightarrow> outcome) \<Rightarrow> string \<Rightarrow> result list" where
  "av_entry analyze symbol =
     (case analyze symbol of
        Raised \<Rightarrow> []
      | ErrorDict \<Rightarrow> []
      | Analysis a \<Rightarrow>
          if a_score a > 30 then [mk_result symbol symbol a (Fin (a_volume_ratio a))] else [])"

definition get_potential_stocks_av ::
  "(string \<Rightarrow> outcome) \<Rightarrow> string list \<Rightarrow> int \<Rightarrow> result list" where
  "get_potential_stocks_av analyze stocks limit =
     (let results = concat (map (av_entry analyze) (py_take (min limit 5) stocks))
      in py_take limit (sort_by_score_desc results))"

section \<open>Example data\<close>

text \<open>
  Frames without indicator values: from index 0 to \<open>n - 1\<close>, a bullish hammer at the indices
  0, 1 and 5 and a zero-range candle elsewhere.
\<close>

definition plain_frame :: "int \<Rightarrow> real \<Rightarrow> real \<Rightarrow> real \<Rightarrow> real \<Rightarrow> frame" where
  "plain_frame d o_p h l c =
     \<lparr>date = d, open_p = o_p, high = h, low = l, close = c, volume = 1000,
      sma_20 = NaN, sma_50 = NaN, rsi = NaN, macd = NaN, macd_signal = NaN,
      bb_upper = NaN, bb_lower = NaN, volume_sma_20 = NaN, volume_ratio = NaN\<rparr>"

definition demo_frames :: "nat \<Rightarrow> frame list" where
  "demo_frames n =
     map (\<lambda>i. if i \<in> {0, 1, 5} then plain_frame (int i) 10 11.1 7 11
              else plain_frame (int i) 10 10 10 10) [0..<n]"

text \<open>Signals for the scorer: one just outside the 30-day window of day 100, one on its edge.\<close>

definition sig_at :: "int \<Rightarrow> real \<Rightarrow> signal" where
  "sig_at d s = \<lparr>sig_date = d, sig_type = volume_surge, strength = s, price = 10,
                 sig_volume = 1000, sig_extra = None\<rparr>"

definition demo_signals :: "signal list" where
  "demo_signals = [sig_at 69 100, sig_at 70 60, sig_at 95 65, sig_at 101 70.5]"

section \<open>The ranker in the words of the specification\<close>

text \<open>
  The candidates of a symbol list are the symbols with an analysis (for the pandas service:
  and with stock information), in list order; the specification keeps those that score more
  than \<open>minScore = 30\<close>, sorts them by descending score, stably, and keeps the first \<open>limit\<close>.
\<close>

definition yf_candidates ::
  "(string \<Rightarrow> outcome) \<Rightarrow> (string \<Rightarrow> string option) \<Rightarrow> string list \<Rightarrow> result list" where
  "yf_candidates analyze info stocks =
     concat (map (\<lambda>symbol. case (analyze symbol, info symbol) of
                    (Analysis a, Some name) \<Rightarrow> [mk_result symbol name a (a_rsi a)]
                  | _ \<Rightarrow> []) stocks)"

definition av_candidates :: "(string \<Rightarrow> outcome) \<Rightarrow> string list \<Rightarrow> result list" where
  "av_candidates analyze stocks =
     concat (map (\<lambda>symbol. case analyze symbol of
                    Analysis a \<Rightarrow> [mk_result symbol symbol a (Fin (a_volume_ratio a))]
                  | _ \<Rightarrow> []) stocks)"

definition rank_spec :: "result list \<Rightarrow> nat \<Rightarrow> result list" where
  "rank_spec candidates limit =
     take limit (sort_by_score_desc (filter (\<lambda>r. r_score r > 30) candidates))"

text \<open>Eight symbols: two fail, one scores exactly 30, two tie at 50.\<close>

definition demo_analysis :: "real \<Rightarrow> outcome" where
  "demo_analysis s =
     Analysis \<lparr>a_score = s, a_close = 10, a_change_pct = 0, a_signals = [],
               a_rsi = Fin 50, a_volume_ratio = 1\<rparr>"

definition demo_analyze :: "string \<Rightarrow> outcome" where
  "demo_analyze symbol =
     (if symbol = ''A'' then demo_analysis 50
      else if symbol = ''B'' then demo_analysis 20
      else if symbol = ''C'' then demo_analysis 70
      else if symbol = ''D'' then demo_analysis 50
      else if symbol = ''E'' then Raised
      else if symbol = ''F'' then ErrorDict
      else if symbol = ''G'' then demo_analysis 30
      else demo_analysis 90)"

definition demo_stocks :: "string list" where
  "demo_stocks = [''A'', ''B'', ''C'', ''D'', ''E'', ''F'', ''G'', ''H'']"

text \<open>
  Bars with flat prices and flat volume \<open>v\<close>, except for the volume \<open>u\<close> at index \<open>k\<close>.
\<close>

definition spike_bars :: "nat \<Rightarrow> nat \<Rightarrow> nat \<Rightarrow> nat \<Rightarrow> bar list" where
  "spike_bars n k v u =
     map (\<lambda>i. \<lparr>date = int i, open_p = 10, high = 10, low = 10, close = 10,
               volume = (if i = k then u else v)\<rparr>) [0..<n]"

text \<open>Bars whose close rises by one every day.\<close>

definition rising_bars :: "nat \<Rightarrow> bar list" where
  "rising_bars n =
     map (\<lambda>i. \<lparr>date = int i, open_p = 10 + real i, high = 10 + real i, low = 10 + real i,
               close = 10 + real i, volume = 1000\<rparr>) [0..<n]"

text \<open>
  Names for the proofs about \<^verbatim>\<open>_calculate_rsi\<close>: the two series that enter the rolling
  means (the day's rise, or fall, and 0 on the first day), and the formula.
\<close>

definition gain_at :: "real list \<Rightarrow> nat \<Rightarrow> real" where
  "gain_at prices i =
     (if i = 0 then 0
      else if prices ! i - prices ! (i - 1) > 0 then prices ! i - prices ! (i - 1) else 0)"

definition loss_at :: "real list \<Rightarrow> nat \<Rightarrow> real" where
  "loss_at prices i =
     (if i = 0 then 0
      else if prices ! i - prices ! (i - 1) < 0 then - (prices ! i - prices ! (i - 1)) else 0)"

definition rsi_of :: "pyfloat \<Rightarrow> pyfloat \<Rightarrow> pyfloat" where
  "rsi_of gain loss = fsub (Fin 100) (fdiv (Fin 100) (fadd (Fin 1) (fdiv gain loss)))"

text \<open>
  The exponentially weighted mean in closed form: the average of the values up to index
  \<open>t\<close>, the value \<open>k\<close> steps back weighted by \<open>(1 - alpha) ^ k\<close>.
\<close>

definition ewm_closed :: "real \<Rightarrow> real list \<Rightarrow> nat \<Rightarrow> real" where
  "ewm_closed alpha xs t =
     (\<Sum>k\<le>t. (1 - alpha) ^ k * xs ! (t - k)) / (\<Sum>k\<le>t. (1 - alpha) ^ k)"

text \<open>
  Twenty-five bars with flat volume whose price is \<open>p\<close> before day \<open>g\<close> and \<open>h\<close> from day
  \<open>g\<close> on: an upward gap on day \<open>g\<close> when \<open>p < h\<close>.
\<close>

definition gap_bars :: "nat \<Rightarrow> real \<Rightarrow> real \<Rightarrow> bar list" where
  "gap_bars g p h =
     map (\<lambda>i. \<lparr>date = int i, open_p = (if i < g then p else h),
               high = (if i < g then p else h), low = (if i < g then p else h),
               close = (if i < g then p else h), volume = 1000\<rparr>) [0..<25]"

text \<open>
  The 20 closes of a window of such a series that holds \<open>k\<close> closes from the gap day on.
\<close>

definition gap_window :: "real \<Rightarrow> real \<Rightarrow> nat \<Rightarrow> real list" where
  "gap_window p h k = replicate (20 - k) p @ replicate k h"

section \<open>Properties of the reversal detector\<close>

lemma reversal_step_date:
  "s \<in> set (reversal_step data i) \<Longrightarrow> sig_date s = date (data ! i)"
  by (auto simp: reversal_step_def mk_signal_def Let_def split: if_splits)

lemma reversal_step_hammer:
  "s \<in> set (reversal_step data i) \<Longrightarrow> sig_type s = hammer_reversal \<Longrightarrow> hammer_test (data ! i)"
  by (auto simp: reversal_step_def mk_signal_def Let_def split: if_splits)

lemma detect_reversal_signals_index:
  assumes "s \<in> set (detect_reversal_signals data)"
  shows "\<exists>i. 2 \<le> i \<and> i < length data \<and> s \<in> set (reversal_step data i)"
  using assms by (auto simp: detect_reversal_signals_def split: if_splits)

lemma zero_body_no_hammer: "close b = open_p b \<Longrightarrow> \<not> hammer_test b"
  by (simp add: hammer_test_def)

lemma distinct_dates_index:
  assumes "distinct (map date data)" "i < length data" "j < length data"
    and "date (data ! i) = date (data ! j)"
  shows "i = j"
proof -
  have "map date data ! i = map date data ! j" using assms by simp
  moreover have "i < length (map date data)" "j < length (map date data)" using assms by simp_all
  ultimately show ?thesis using assms(1) nth_eq_iff_index_eq by blast
qed

text \<open>
  Claim C8. A bar with open = close = high = low has a zero body and never passes the hammer
  test: the loop pass at its index appends no hammer signal, and with distinct dates no
  hammer signal of the detector carries its date. The test itself is three comparisons of
  products and differences (\<open>hammer_test\<close>), so no quotient by the body is formed.
\<close>

theorem hammer_zero_range_never_fires:
  assumes "i < length data"
    and "open_p (data ! i) = close (data ! i)"
    and "high (data ! i) = close (data ! i)"
    and "low (data ! i) = close (data ! i)"
  shows "body (data ! i) = 0 \<and> \<not> hammer_test (data ! i) \<and>
         (\<forall>s \<in> set (reversal_step data i). sig_type s \<noteq> hammer_reversal) \<and>
         (distinct (map date data) \<longrightarrow>
            (\<forall>s \<in> set (detect_reversal_signals data).
               sig_type s = hammer_reversal \<longrightarrow> sig_date s \<noteq> date (data ! i)))"
proof -
  have b: "body (data ! i) = 0" using assms(2) by (simp add: body_def)
  have nh: "\<not> hammer_test (data ! i)" using assms(2) by (simp add: zero_body_no_hammer)
  have step: "\<forall>s \<in> set (reversal_step data i). sig_type s \<noteq> hammer_reversal"
    using nh reversal_step_hammer by blast
  have all: "sig_date s \<noteq> date (data ! i)"
    if d: "distinct (map date data)" and s: "s \<in> set (detect_reversal_signals data)"
      and h: "sig_type s = hammer_reversal" for s
  proof
    assume eq: "sig_date s = date (data ! i)"
    from detect_reversal_signals_index [OF s] obtain j
      where j: "j < length data" "s \<in> set (reversal_step data j)" by blast
    from j(2) have "sig_date s = date (data ! j)" by (rule reversal_step_date)
    with eq have "i = j" using distinct_dates_index [OF d assms(1) j(1)] by simp
    with j(2) h nh show False using reversal_step_hammer by blast
  qed
  show ?thesis using b nh step all by blast
qed

theorem hammer_zero_range_never_fires_witness:
  "3 < length (demo_frames 30) \<and>
   open_p (demo_frames 30 ! 3) = close (demo_frames 30 ! 3) \<and>
   high (demo_frames 30 ! 3) = close (demo_frames 30 ! 3) \<and>
   low (demo_frames 30 ! 3) = close (demo_frames 30 ! 3) \<and>
   distinct (map date (demo_frames 30)) \<and>
   hammer_test (demo_frames 30 ! 5) \<and>
   \<not> hammer_test (demo_frames 30 ! 3) \<and>
   mk_signal (demo_frames 30 ! 3) hammer_reversal 65 None \<notin> set (detect_reversal_signals (demo_frames 30))"
proof -
  have h1: "3 < length (demo_frames 30)" by (simp add: demo_frames_def)
  have h2: "open_p (demo_frames 30 ! 3) = close (demo_frames 30 ! 3)"
    and h3: "high (demo_frames 30 ! 3) = close (demo_frames 30 ! 3)"
    and h4: "low (demo_frames 30 ! 3) = close (demo_frames 30 ! 3)"
    by (simp_all add: demo_frames_def plain_frame_def)
  have d: "distinct (map date (demo_frames 30))" by code_simp
  have h5: "hammer_test (demo_frames 30 ! 5)" by code_simp
  from hammer_zero_range_never_fires [OF h1 h2 h3 h4] d
  have c: "\<not> hammer_test (demo_frames 30 ! 3)"
    "\<forall>s \<in> set (detect_reversal_signals (demo_frames 30)).
       sig_type s = hammer_reversal \<longrightarrow> sig_date s \<noteq> date (demo_frames 30 ! 3)"
    by blast+
  have "mk_signal (demo_frames 30 ! 3) hammer_reversal 65 None \<notin> set (detect_reversal_signals (demo_frames 30))"
    using c(2) by (auto simp: mk_signal_def)
  then show ?thesis using h1 h2 h3 h4 d h5 c(1) by blast
qed

text \<open>
  Claim C10. With fewer than 30 frames the reversal detector returns no signal at all,
  whatever the shape of the bars; and every signal it returns comes from a loop pass at an
  index from 2 on, so that with distinct dates none carries the date of frame 0 or frame 1.
\<close>

theorem reversal_guard_and_start:
  "(length data < 30 \<longrightarrow> detect_reversal_signals data = []) \<and>
   (\<forall>s \<in> set (detect_reversal_signals data).
      \<exists>i. 2 \<le> i \<and> i < length data \<and> s \<in> set (reversal_step data i) \<and>
          sig_date s = date (data ! i)) \<and>
   (distinct (map date data) \<longrightarrow>
      (\<forall>s \<in> set (detect_reversal_signals data).
         sig_date s \<noteq> date (data ! 0) \<and> sig_date s \<noteq> date (data ! 1)))"
proof -
  have g: "length data < 30 \<longrightarrow> detect_reversal_signals data = []"
    by (simp add: detect_reversal_signals_def)
  have ix: "\<exists>i. 2 \<le> i \<and> i < length data \<and> s \<in> set (reversal_step data i) \<and>
          sig_date s = date (data ! i)" if "s \<in> set (detect_reversal_signals data)" for s
    using detect_reversal_signals_index [OF that] reversal_step_date by blast
  have ne: "sig_date s \<noteq> date (data ! 0) \<and> sig_date s \<noteq> date (data ! 1)"
    if d: "distinct (map date data)" and s: "s \<in> set (detect_reversal_signals data)" for s
  proof -
    from ix [OF s] obtain i where i: "2 \<le> i" "i < length data" "sig_date s = date (data ! i)"
      by blast
    have "date (data ! i) \<noteq> date (data ! 0)"
    proof
      assume "date (data ! i) = date (data ! 0)"
      moreover have "0 < length data" using i(1,2) by (cases data) auto
      ultimately have "i = 0" using distinct_dates_index [OF d i(2)] by blast
      then show False using i(1) by simp
    qed
    moreover have "date (data ! i) \<noteq> date (data ! 1)"
    proof
      assume "date (data ! i) = date (data ! 1)"
      moreover have "1 < length data" using i(1,2) by simp
      ultimately have "i = 1" using distinct_dates_index [OF d i(2)] by blast
      then show False using i(1) by simp
    qed
    ultimately show ?thesis using i(3) by simp
  qed
  show ?thesis using g ix ne by blast
qed

theorem reversal_guard_and_start_witness:
  "length (demo_frames 29) < 30 \<and> hammer_test (demo_frames 29 ! 5) \<and>
   detect_reversal_signals (demo_frames 29) = [] \<and>
   distinct (map date (demo_frames 30)) \<and>
   hammer_test (demo_frames 30 ! 0) \<and> hammer_test (demo_frames 30 ! 1) \<and>
   mk_signal (demo_frames 30 ! 5) hammer_reversal 65 None \<in> set (detect_reversal_signals (demo_frames 30)) \<and>
   filter (\<lambda>s. sig_date s = date (demo_frames 30 ! 0) \<or> sig_date s = date (demo_frames 30 ! 1))
     (detect_reversal_signals (demo_frames 30)) = []"
proof -
  have l: "length (demo_frames 29) < 30" by (simp add: demo_frames_def)
  have h: "hammer_test (demo_frames 29 ! 5)" "hammer_test (demo_frames 30 ! 0)"
    "hammer_test (demo_frames 30 ! 1)" by code_simp+
  have d: "distinct (map date (demo_frames 30))" by code_simp
  have m: "mk_signal (demo_frames 30 ! 5) hammer_reversal 65 None \<in> set (detect_reversal_signals (demo_frames 30))"
    by code_simp
  have e: "detect_reversal_signals (demo_frames 29) = []"
    using reversal_guard_and_start [of "demo_frames 29"] l by blast
  have "\<forall>s \<in> set (detect_reversal_signals (demo_frames 30)).
         sig_date s \<noteq> date (demo_frames 30 ! 0) \<and> sig_date s \<noteq> date (demo_frames 30 ! 1)"
    using reversal_guard_and_start [of "demo_frames 30"] d by blast
  then have f: "filter (\<lambda>s. sig_date s = date (demo_frames 30 ! 0) \<or> sig_date s = date (demo_frames 30 ! 1))
     (detect_reversal_signals (demo_frames 30)) = []"
    by (auto simp: filter_empty_conv)
  show ?thesis using l h d m e f by blast
qed

section \<open>Properties of the composite score\<close>

lemma round_half_even_close: "\<bar>of_int (round_half_even x) - x\<bar> \<le> 1 / 2"
  unfolding round_half_even_def Let_def by (auto simp: abs_if) linarith+

lemma py_round2_zero: "py_round2 0 = 0"
  by (simp add: py_round2_def round_half_even_def)

lemma py_round2_close: "\<bar>py_round2 x - x\<bar> \<le> 1 / 200"
proof -
  have "\<bar>of_int (round_half_even (x * 100)) - x * 100\<bar> \<le> 1 / 2"
    by (rule round_half_even_close)
  then show ?thesis unfolding py_round2_def by (simp add: abs_if field_simps split: if_splits)
qed

text \<open>
  Claim C1. The composite score is 0 when no signal has \<open>today - date \<le> 30\<close>; otherwise
  it is the arithmetic mean of the strengths of exactly those signals, rounded to two
  decimals: a multiple of 1/100 at distance at most 1/200 from the mean.
\<close>

theorem composite_score_is_rounded_mean:
  "(let recent = filter (\<lambda>s. today - sig_date s \<le> 30) all_signals;
        score = analyze_stock_score today all_signals
    in if recent = [] then score = 0
       else score = py_round2 (mean (map strength recent)) \<and>
            (\<exists>k::int. score = of_int k / 100) \<and>
            \<bar>score - mean (map strength recent)\<bar> \<le> 1 / 200)"
proof -
  let ?recent = "filter (\<lambda>s. today - sig_date s \<le> 30) all_signals"
  show ?thesis
  proof (cases "?recent = []")
    case True
    then show ?thesis
      by (simp add: analyze_stock_score_def total_score_def recent_signals_def py_round2_zero)
  next
    case False
    then have eq: "analyze_stock_score today all_signals = py_round2 (mean (map strength ?recent))"
      by (simp add: analyze_stock_score_def total_score_def recent_signals_def mean_def Let_def)
    have "\<exists>k::int. py_round2 (mean (map strength ?recent)) = of_int k / 100"
      unfolding py_round2_def by blast
    then show ?thesis using False eq py_round2_close [of "mean (map strength ?recent)"]
      by (simp add: Let_def)
  qed
qed

theorem composite_score_is_rounded_mean_witness:
  "analyze_stock_score 100 demo_signals = 6517 / 100 \<and>
   filter (\<lambda>s. 100 - sig_date s \<le> 30) demo_signals = [sig_at 70 60, sig_at 95 65, sig_at 101 70.5] \<and>
   mean (map strength [sig_at 70 60, sig_at 95 65, sig_at 101 70.5]) = 391 / 6 \<and>
   filter (\<lambda>s. 200 - sig_date s \<le> 30) demo_signals = [] \<and>
   analyze_stock_score 200 demo_signals = 0"
proof -
  have f1: "filter (\<lambda>s. 100 - sig_date s \<le> 30) demo_signals = [sig_at 70 60, sig_at 95 65, sig_at 101 70.5]"
    by (simp add: demo_signals_def sig_at_def)
  have f2: "filter (\<lambda>s. 200 - sig_date s \<le> 30) demo_signals = []"
    by (simp add: demo_signals_def sig_at_def)
  have m: "mean (map strength [sig_at 70 60, sig_at 95 65, sig_at 101 70.5]) = 391 / 6"
    by (simp add: mean_def sig_at_def)
  have r: "py_round2 (391 / 6) = 6517 / 100"
    by (simp add: py_round2_def round_half_even_def)
  have "analyze_stock_score 100 demo_signals =
          py_round2 (mean (map strength (filter (\<lambda>s. 100 - sig_date s \<le> 30) demo_signals)))"
    using composite_score_is_rounded_mean [of 100 demo_signals] f1 by (simp add: Let_def)
  then have a: "analyze_stock_score 100 demo_signals = 6517 / 100"
    by (simp only: f1 m r)
  have b: "analyze_stock_score 200 demo_signals = 0"
    using composite_score_is_rounded_mean [of 200 demo_signals] f2 by (simp add: Let_def)
  show ?thesis using a f1 m f2 b by blast
qed

section \<open>Properties of the ranker\<close>

lemma yf_entries_filter:
  "concat (map (yf_entry analyze info) stocks) =
   filter (\<lambda>r. r_score r > 30) (yf_candidates analyze info stocks)"
  by (induction stocks)
    (auto simp: yf_entry_def yf_candidates_def mk_result_def split: outcome.splits option.splits)

lemma av_entries_filter:
  "concat (map (av_entry analyze) stocks) =
   filter (\<lambda>r. r_score r > 30) (av_candidates analyze stocks)"
  by (induction stocks)
    (auto simp: av_entry_def av_candidates_def mk_result_def split: outcome.splits)

lemma sort_by_score_desc_sorted:
  "sorted_wrt (\<lambda>a b. r_score a \<ge> r_score b) (sort_by_score_desc xs)"
proof -
  have "sorted (map (\<lambda>x. - r_score x) (sort_key (\<lambda>x. - r_score x) xs))"
    by (rule sorted_sort_key)
  then show ?thesis by (simp add: sort_by_score_desc_def sorted_map)
qed

lemma sort_by_score_desc_stable:
  "filter (\<lambda>r. r_score r = k) (sort_by_score_desc xs) = filter (\<lambda>r. r_score r = k) xs"
proof -
  have "filter (\<lambda>r. - r_score r = - k) (sort_key (\<lambda>x. - r_score x) xs) =
        filter (\<lambda>r. - r_score r = - k) xs"
    by (rule sort_key_stable)
  then show ?thesis by (simp add: sort_by_score_desc_def)
qed

lemma sort_by_score_desc_mset: "mset (sort_by_score_desc xs) = mset xs"
  by (simp add: sort_by_score_desc_def)

lemma length_av_entries: "length (concat (map (av_entry analyze) stocks)) \<le> length stocks"
  by (induction stocks) (auto simp: av_entry_def split: outcome.splits)

text \<open>
  Claim C9, as the code has it. For a limit that is not negative, the pandas service returns
  the ranking of the specification over the candidates among the first 20 symbols; the Alpha
  Vantage service returns it over the candidates among the first \<open>min limit 5\<close> symbols only,
  hence never more than five entries. The ranking is by descending score, keeps the input order
  of entries with equal score, and is a permutation of what it is given.
\<close>

theorem ranker_output:
  assumes "0 \<le> limit"
  shows "get_potential_stocks_yf analyze info stocks limit =
           rank_spec (yf_candidates analyze info (take 20 stocks)) (nat limit) \<and>
         get_potential_stocks_av analyze stocks limit =
           rank_spec (av_candidates analyze (take (min (nat limit) 5) stocks)) (nat limit) \<and>
         length (get_potential_stocks_av analyze stocks limit) \<le> 5 \<and>
         sorted_wrt (\<lambda>a b. r_score a \<ge> r_score b) (sort_by_score_desc results) \<and>
         filter (\<lambda>r. r_score r = k) (sort_by_score_desc results) =
           filter (\<lambda>r. r_score r = k) results \<and>
         mset (sort_by_score_desc results) = mset results"
proof -
  have yf: "get_potential_stocks_yf analyze info stocks limit =
           rank_spec (yf_candidates analyze info (take 20 stocks)) (nat limit)"
    using assms
    by (simp add: get_potential_stocks_yf_def rank_spec_def py_take_def yf_entries_filter)
  have "nat (min limit 5) = min (nat limit) 5" using assms by linarith
  then have m: "py_take (min limit 5) stocks = take (min (nat limit) 5) stocks"
    using assms by (simp add: py_take_def)
  have av: "get_potential_stocks_av analyze stocks limit =
           rank_spec (av_candidates analyze (take (min (nat limit) 5) stocks)) (nat limit)"
    using assms
    by (simp add: get_potential_stocks_av_def rank_spec_def m av_entries_filter)
      (simp add: py_take_def)
  have "length (get_potential_stocks_av analyze stocks limit) \<le>
        length (sort_by_score_desc (concat (map (av_entry analyze) (take (min (nat limit) 5) stocks))))"
    using assms by (simp add: get_potential_stocks_av_def m) (simp add: py_take_def)
  also have "\<dots> = length (concat (map (av_entry analyze) (take (min (nat limit) 5) stocks)))"
    by (simp add: sort_by_score_desc_def)
  also have "\<dots> \<le> length (take (min (nat limit) 5) stocks)"
    by (rule length_av_entries)
  also have "\<dots> \<le> 5" by simp
  finally have le: "length (get_potential_stocks_av analyze stocks limit) \<le> 5" .
  show ?thesis
    using yf av le sort_by_score_desc_sorted sort_by_score_desc_stable sort_by_score_desc_mset
    by blast
qed


theorem ranker_output_witness:
  "(0::int) \<le> 10 \<and>
   get_potential_stocks_yf demo_analyze (\<lambda>s. Some s) demo_stocks 10 =
     rank_spec (yf_candidates demo_analyze (\<lambda>s. Some s) (take 20 demo_stocks)) (nat 10) \<and>
   map r_symbol (rank_spec (yf_candidates demo_analyze (\<lambda>s. Some s) (take 20 demo_stocks)) (nat 10)) =
     [''H'', ''C'', ''A'', ''D''] \<and>
   get_potential_stocks_av demo_analyze demo_stocks 10 =
     rank_spec (av_candidates demo_analyze (take (min (nat 10) 5) demo_stocks)) (nat 10) \<and>
   map r_symbol (rank_spec (av_candidates demo_analyze (take (min (nat 10) 5) demo_stocks)) (nat 10)) =
     [''C'', ''A'', ''D'']"
proof -
  have h: "(0::int) \<le> 10" by simp
  have e1: "map r_symbol (rank_spec (yf_candidates demo_analyze (\<lambda>s. Some s) (take 20 demo_stocks)) (nat 10)) =
     [''H'', ''C'', ''A'', ''D'']" by code_simp
  have e2: "map r_symbol (rank_spec (av_candidates demo_analyze (take (min (nat 10) 5) demo_stocks)) (nat 10)) =
     [''C'', ''A'', ''D'']" by code_simp
  show ?thesis
    using h e1 e2 ranker_output [OF h, of demo_analyze "\<lambda>s. Some s" demo_stocks] by blast
qed

text \<open>
  The claim as stated fails on the Alpha Vantage service: of eight symbols it analyses five,
  so the best candidate, the eighth, is missing from the answer for \<open>limit = 10\<close>.
\<close>

theorem ranker_ceiling_counterexample:
  "get_potential_stocks_av demo_analyze demo_stocks 10 \<noteq>
   rank_spec (av_candidates demo_analyze demo_stocks) 10"
  by code_simp

section \<open>Properties of the indicator calculator\<close>

lemma fin_vals_map_Fin: "fin_vals (map Fin xs) = Some xs"
  by (induction xs) auto

lemma window_map: "window w (map f xs) i = map f (window w xs i)"
  by (simp add: window_def take_map drop_map)

lemma length_rolling: "length (rolling agg w xs) = length xs"
  by (simp add: rolling_def)

lemma rolling_map_Fin:
  assumes "i < length xs"
  shows "rolling agg w (map (\<lambda>x. Fin (f x)) xs) ! i =
         (if i + 1 < w then NaN else Fin (agg (window w (map f xs) i)))"
proof -
  have e: "map (\<lambda>x. Fin (f x)) xs = map Fin (map f xs)" by simp
  show ?thesis unfolding e using assms
    by (simp add: rolling_def window_map fin_vals_map_Fin del: map_map)
qed

lemma length_window: "w \<le> i + 1 \<Longrightarrow> i < length xs \<Longrightarrow> length (window w xs i) = w"
  by (auto simp: window_def)

lemma last_in_window:
  assumes "0 < w" "w \<le> i + 1" "i < length xs"
  shows "xs ! i \<in> set (window w xs i)"
proof -
  have "window w xs i ! (w - 1) = xs ! i"
    using assms by (simp add: window_def)
  moreover have "w - 1 < length (window w xs i)"
    using assms by (simp add: length_window)
  ultimately show ?thesis by (metis nth_mem)
qed

lemma length_calculate_technical_indicators:
  "length (calculate_technical_indicators data) = length data"
  by (simp add: calculate_technical_indicators_def Let_def)

lemma cti_bar_fields:
  assumes "i < length data"
  shows "date (calculate_technical_indicators data ! i) = date (data ! i)"
    and "close (calculate_technical_indicators data ! i) = close (data ! i)"
    and "volume (calculate_technical_indicators data ! i) = volume (data ! i)"
  using assms by (auto simp: calculate_technical_indicators_def Let_def)

lemma cti_volume_sma_20:
  assumes "i < length data"
  shows "volume_sma_20 (calculate_technical_indicators data ! i) =
         (if i + 1 < 20 then NaN else Fin (mean (window 20 (map (\<lambda>b. real (volume b)) data) i)))"
proof -
  have "volume_sma_20 (calculate_technical_indicators data ! i) =
        rolling mean 20 (map (\<lambda>b. Fin (real (volume b))) data) ! i"
    using assms by (auto simp: calculate_technical_indicators_def Let_def rolling_mean_def)
  then show ?thesis using assms by (simp only: rolling_map_Fin)
qed

lemma cti_volume_ratio:
  assumes "i < length data"
  shows "volume_ratio (calculate_technical_indicators data ! i) =
         fdiv (Fin (real (volume (data ! i)))) (volume_sma_20 (calculate_technical_indicators data ! i))"
  using assms
  by (auto simp: calculate_technical_indicators_def Let_def rolling_mean_def length_rolling)


section \<open>Properties of the volume-surge rule\<close>

lemma surge_row_props:
  assumes "s \<in> set (surge_row row)"
  shows "sig_date s = date row" and "sig_type s = volume_surge"
    and "volume_ratio row = Fin r \<Longrightarrow> strength s = min (r * 20) 100"
    and "notna (volume_ratio row)"
  using assms by (auto simp: surge_row_def mk_signal_def split: pyfloat.splits)

lemma surge_row_nonempty:
  "fgt (volume_ratio row) (Fin th) \<Longrightarrow> surge_row row \<noteq> []"
  by (cases "volume_ratio row") (auto simp: surge_row_def)

lemma detect_volume_surge_mem:
  "s \<in> set (detect_volume_surge data th) \<longleftrightarrow>
   (\<exists>row \<in> set data. fgt (volume_ratio row) (Fin th) \<and> s \<in> set (surge_row row))"
  by (auto simp: detect_volume_surge_def)

lemma volume_surge_at_index:
  assumes i: "i < length data" and d: "distinct (map date data)"
  shows "(\<exists>s \<in> set (detect_volume_surge data th). sig_date s = date (data ! i)) \<longleftrightarrow>
         fgt (volume_ratio (data ! i)) (Fin th)"
    and "\<forall>s \<in> set (detect_volume_surge data th). sig_date s = date (data ! i) \<longrightarrow>
           s \<in> set (surge_row (data ! i))"
proof -
  have from_i: "s \<in> set (surge_row (data ! i)) \<and> fgt (volume_ratio (data ! i)) (Fin th)"
    if s: "s \<in> set (detect_volume_surge data th)" and e: "sig_date s = date (data ! i)" for s
  proof -
    from s obtain row where r: "row \<in> set data" "fgt (volume_ratio row) (Fin th)"
      "s \<in> set (surge_row row)" by (auto simp: detect_volume_surge_mem)
    from r(1) obtain j where j: "j < length data" "row = data ! j" by (auto simp: in_set_conv_nth)
    have "sig_date s = date row" using r(3) by (rule surge_row_props)
    with e j have "i = j" using distinct_dates_index [OF d i j(1)] by simp
    with r j show ?thesis by simp
  qed
  show "(\<exists>s \<in> set (detect_volume_surge data th). sig_date s = date (data ! i)) \<longleftrightarrow>
         fgt (volume_ratio (data ! i)) (Fin th)"
  proof
    assume "\<exists>s \<in> set (detect_volume_surge data th). sig_date s = date (data ! i)"
    then show "fgt (volume_ratio (data ! i)) (Fin th)" using from_i by blast
  next
    assume g: "fgt (volume_ratio (data ! i)) (Fin th)"
    then obtain s where s: "s \<in> set (surge_row (data ! i))"
      using surge_row_nonempty [OF g] by (cases "surge_row (data ! i)") auto
    have "data ! i \<in> set data" using i by simp
    with g s have "s \<in> set (detect_volume_surge data th)"
      by (auto simp: detect_volume_surge_mem)
    moreover have "sig_date s = date (data ! i)" using s by (rule surge_row_props)
    ultimately show "\<exists>s \<in> set (detect_volume_surge data th). sig_date s = date (data ! i)"
      by blast
  qed
  show "\<forall>s \<in> set (detect_volume_surge data th). sig_date s = date (data ! i) \<longrightarrow>
           s \<in> set (surge_row (data ! i))"
    using from_i by blast
qed

lemma av_surge_step_props:
  assumes "s \<in> set (av_surge_step d th i)"
  shows "sig_date s = date (d ! i)" and "sig_type s = volume_surge"
    and "0 < av_avg_volume d i" and "th \<le> real (volume (d ! i)) / av_avg_volume d i"
    and "strength s = min (real (volume (d ! i)) / av_avg_volume d i * 20) 100"
  using assms by (auto simp: av_surge_step_def mk_signal_def Let_def split: if_splits)

lemma av_surge_step_nonempty:
  "0 < av_avg_volume d i \<Longrightarrow> th \<le> real (volume (d ! i)) / av_avg_volume d i \<Longrightarrow>
   av_surge_step d th i \<noteq> []"
  by (simp add: av_surge_step_def Let_def)

lemma calculate_volume_surge_mem:
  "s \<in> set (calculate_volume_surge d th) \<longleftrightarrow>
   (\<exists>j. 19 \<le> j \<and> j < length d \<and> s \<in> set (av_surge_step d th j))"
  by (auto simp: calculate_volume_surge_def)

lemma av_volume_surge_at_index:
  assumes i: "19 \<le> i" "i < length d" and dd: "distinct (map date d)"
    and avg: "0 < av_avg_volume d i"
  shows "(\<exists>s \<in> set (calculate_volume_surge d th). sig_date s = date (d ! i)) \<longleftrightarrow>
         th \<le> real (volume (d ! i)) / av_avg_volume d i"
    and "\<forall>s \<in> set (calculate_volume_surge d th). sig_date s = date (d ! i) \<longrightarrow>
           s \<in> set (av_surge_step d th i)"
proof -
  have from_i: "s \<in> set (av_surge_step d th i)"
    if s: "s \<in> set (calculate_volume_surge d th)" and e: "sig_date s = date (d ! i)" for s
  proof -
    from s obtain j where j: "j < length d" "s \<in> set (av_surge_step d th j)"
      by (auto simp: calculate_volume_surge_mem)
    have "sig_date s = date (d ! j)" using j(2) by (rule av_surge_step_props)
    with e have "i = j" using distinct_dates_index [OF dd i(2) j(1)] by simp
    with j show ?thesis by simp
  qed
  show "(\<exists>s \<in> set (calculate_volume_surge d th). sig_date s = date (d ! i)) \<longleftrightarrow>
         th \<le> real (volume (d ! i)) / av_avg_volume d i"
  proof
    assume "\<exists>s \<in> set (calculate_volume_surge d th). sig_date s = date (d ! i)"
    then show "th \<le> real (volume (d ! i)) / av_avg_volume d i"
      using from_i av_surge_step_props(4) by blast
  next
    assume g: "th \<le> real (volume (d ! i)) / av_avg_volume d i"
    then obtain s where s: "s \<in> set (av_surge_step d th i)"
      using av_surge_step_nonempty [OF avg g] by (cases "av_surge_step d th i") auto
    then have "s \<in> set (calculate_volume_surge d th)"
      using i by (auto simp: calculate_volume_surge_mem)
    moreover have "sig_date s = date (d ! i)" using s by (rule av_surge_step_props)
    ultimately show "\<exists>s \<in> set (calculate_volume_surge d th). sig_date s = date (d ! i)"
      by blast
  qed
  show "\<forall>s \<in> set (calculate_volume_surge d th). sig_date s = date (d ! i) \<longrightarrow>
           s \<in> set (av_surge_step d th i)"
    using from_i by blast
qed


lemma window_conv_upt:
  assumes "w \<le> i + 1" "i < length xs"
  shows "window w xs i = map ((!) xs) [i + 1 - w..<i + 1]"
proof -
  have "window w xs i = take w (drop (i + 1 - w) (map ((!) xs) [0..<length xs]))"
    by (simp add: window_def map_nth)
  also have "\<dots> = map ((!) xs) (take w (drop (i + 1 - w) [0..<length xs]))"
    by (simp only: take_map drop_map)
  also have "take w (drop (i + 1 - w) [0..<length xs]) = [i + 1 - w..<i + 1]"
    using assms by (simp add: take_upt)
  finally show ?thesis .
qed

lemma zero_volume_window:
  assumes i: "i < length data"
    and z: "volume_sma_20 (calculate_technical_indicators data ! i) = Fin 0"
  shows "volume (data ! i) = 0"
proof -
  let ?vs = "map (\<lambda>b. real (volume b)) data"
  from z i have w: "\<not> i + 1 < 20" and m: "mean (window 20 ?vs i) = 0"
    by (auto simp: cti_volume_sma_20 split: if_splits)
  have len: "length (window 20 ?vs i) = 20" using w i by (simp add: length_window)
  from m len have "sum_list (window 20 ?vs i) = 0" by (simp add: mean_def)
  moreover have "\<And>x. x \<in> set (window 20 ?vs i) \<Longrightarrow> 0 \<le> x"
    by (auto simp: window_def dest!: in_set_takeD in_set_dropD)
  ultimately have "\<forall>x \<in> set (window 20 ?vs i). x = 0"
    by (simp add: sum_list_nonneg_eq_0_iff)
  moreover have "?vs ! i \<in> set (window 20 ?vs i)"
    using w i by (intro last_in_window) simp_all
  ultimately have "?vs ! i = 0" by blast
  then show ?thesis using i by simp
qed

lemma cti_volume_sma_20_cases:
  assumes "i < length data"
  shows "volume_sma_20 (calculate_technical_indicators data ! i) = NaN \<or>
         (\<exists>m. volume_sma_20 (calculate_technical_indicators data ! i) = Fin m)"
  using assms by (simp add: cti_volume_sma_20)

section \<open>A single volume spike\<close>

lemma spike_window_sum:
  assumes vols: "\<forall>j<length bars. volume (bars ! j) = (if j = k then u else v)"
    and i: "19 \<le> i" "i < length bars"
  shows "sum_list (window 20 (map (\<lambda>b. real (volume b)) bars) i) =
         (if i - 19 \<le> k \<and> k \<le> i then 19 * real v + real u else 20 * real v)"
proof -
  let ?vs = "map (\<lambda>b. real (volume b)) bars"
  let ?f = "\<lambda>j. real v + (if j = k then real u - real v else 0)"
  have "window 20 ?vs i = map ((!) ?vs) [i - 19..<i + 1]"
    using i window_conv_upt [of 20 i ?vs] by simp
  also have "\<dots> = map ?f [i - 19..<i + 1]"
    using vols i by (intro map_cong) auto
  finally have "sum_list (window 20 ?vs i) = sum_list (map ?f [i - 19..<i + 1])" by simp
  also have "\<dots> = sum ?f {i - 19..<i + 1}"
    by (simp add: sum_set_upt_conv_sum_list_nat [symmetric] del: upt_Suc)
  also have "\<dots> = (\<Sum>j\<in>{i - 19..<i + 1}. real v) +
                   (\<Sum>j\<in>{i - 19..<i + 1}. if j = k then real u - real v else 0)"
    by (rule sum.distrib)
  also have "(\<Sum>j\<in>{i - 19..<i + 1}. real v) = 20 * real v" using i by simp
  also have "(\<Sum>j\<in>{i - 19..<i + 1}. if j = k then real u - real v else 0) =
             (if k \<in> {i - 19..<i + 1} then real u - real v else 0)"
    by (simp add: sum.delta)
  finally show ?thesis by auto
qed

lemma spike_volume_ratio:
  assumes vols: "\<forall>j<length bars. volume (bars ! j) = (if j = k then u else v)"
    and v: "0 < v" and i: "i < length bars"
  shows "volume_ratio (calculate_technical_indicators bars ! i) =
         (if i < 19 then NaN
          else if i = k then Fin (20 * real u / (19 * real v + real u))
          else if i - 19 \<le> k \<and> k \<le> i then Fin (20 * real v / (19 * real v + real u))
          else Fin 1)"
proof (cases "i < 19")
  case True
  then show ?thesis using i by (simp add: cti_volume_ratio cti_volume_sma_20)
next
  case False
  let ?vs = "map (\<lambda>b. real (volume b)) bars"
  have len: "length (window 20 ?vs i) = 20" using False i by (simp add: length_window)
  have m: "mean (window 20 ?vs i) =
           (if i - 19 \<le> k \<and> k \<le> i then 19 * real v + real u else 20 * real v) / 20"
    using False i spike_window_sum [OF vols, of i] len by (simp add: mean_def)
  have vi: "real (volume (bars ! i)) = (if i = k then real u else real v)"
    using vols i by simp
  have pos: "19 * real v + real u > 0" using v by (simp add: add_pos_nonneg)
  show ?thesis using False i v pos
    by (simp add: cti_volume_ratio cti_volume_sma_20 m vi)
qed

lemma filter_eq_upt: "filter (\<lambda>i. i = k) [0..<n] = (if k < n then [k] else [])"
  by (induction n) auto

lemma detect_volume_surge_cti:
  "detect_volume_surge (calculate_technical_indicators bars) th =
   concat (map (\<lambda>i. surge_row (calculate_technical_indicators bars ! i))
     (filter (\<lambda>i. fgt (volume_ratio (calculate_technical_indicators bars ! i)) (Fin th))
        [0..<length bars]))"
proof -
  let ?fs = "calculate_technical_indicators bars"
  have "?fs = map ((!) ?fs) [0..<length bars]"
    using map_nth [of ?fs] by (simp add: length_calculate_technical_indicators)
  then have "detect_volume_surge ?fs th =
        concat (map surge_row (filter (\<lambda>row. fgt (volume_ratio row) (Fin th))
          (map ((!) ?fs) [0..<length bars])))"
    by (simp add: detect_volume_surge_def)
  then show ?thesis by (simp add: filter_map comp_def)
qed

lemma spike_surge_signals:
  assumes vols: "\<forall>j<length bars. volume (bars ! j) = (if j = k then u else v)"
    and v: "0 < v" "v \<le> u" and k: "19 \<le> k" "k < length bars" and th: "1 \<le> th"
  shows "detect_volume_surge (calculate_technical_indicators bars) th =
         (if th < 20 * real u / (19 * real v + real u)
          then [mk_signal (bars ! k) volume_surge
                  (min (20 * real u / (19 * real v + real u) * 20) 100) None]
          else [])"
proof -
  let ?fs = "calculate_technical_indicators bars"
  let ?r = "20 * real u / (19 * real v + real u)"
  have pos: "19 * real v + real u > 0" using v by (simp add: add_pos_nonneg)
  have le1: "20 * real v / (19 * real v + real u) \<le> 1" using v pos by simp
  have "filter (\<lambda>i. fgt (volume_ratio (?fs ! i)) (Fin th)) [0..<length bars] =
        filter (\<lambda>i. i = k \<and> th < ?r) [0..<length bars]"
  proof (rule filter_cong [OF refl])
    fix i assume "i \<in> set [0..<length bars]"
    then have i: "i < length bars" by simp
    show "fgt (volume_ratio (?fs ! i)) (Fin th) = (i = k \<and> th < ?r)"
      using spike_volume_ratio [OF vols v(1) i] k th le1 by auto
  qed
  also have "\<dots> = (if th < ?r then [k] else [])"
    using k by (simp add: filter_eq_upt)
  finally have f: "filter (\<lambda>i. fgt (volume_ratio (?fs ! i)) (Fin th)) [0..<length bars] =
                   (if th < ?r then [k] else [])" .
  have rk: "volume_ratio (?fs ! k) = Fin ?r"
    using spike_volume_ratio [OF vols v(1) k(2)] k by simp
  have "surge_row (?fs ! k) = [mk_signal (bars ! k) volume_surge (min (?r * 20) 100) None]"
    using k by (simp add: surge_row_def rk mk_signal_def cti_bar_fields)
  then show ?thesis by (simp add: detect_volume_surge_cti f)
qed


lemma spike_bars_props:
  "length (spike_bars n k v u) = n"
  "map volume (spike_bars n k v u) = map (\<lambda>j. if j = k then u else v) [0..<n]"
  "map date (spike_bars n k v u) = map int [0..<n]"
  by (simp_all add: spike_bars_def)

lemma spike_bars_nth:
  "j < n \<Longrightarrow> volume (spike_bars n k v u ! j) = (if j = k then u else v)"
  "j < n \<Longrightarrow> date (spike_bars n k v u ! j) = int j"
  by (simp_all add: spike_bars_def)

lemma distinct_spike_dates: "distinct (map date (spike_bars n k v u))"
  by (simp add: spike_bars_props distinct_map inj_on_def)

lemma volumes_nth:
  assumes "map volume bars = map f [0..<length bars]"
  shows "\<forall>j<length bars. volume (bars ! j) = f j"
proof (intro allI impI)
  fix j assume j: "j < length bars"
  then have "volume (bars ! j) = map volume bars ! j" by simp
  also have "\<dots> = f j" using j by (simp add: assms)
  finally show "volume (bars ! j) = f j" .
qed

lemma cti_dates: "map date (calculate_technical_indicators bars) = map date bars"
  by (rule nth_equalityI) (simp_all add: length_calculate_technical_indicators cti_bar_fields)

lemma volume_ratio_nan_without_mean:
  assumes "i < length data"
    and "volume_sma_20 (calculate_technical_indicators data ! i) = NaN \<or>
         volume_sma_20 (calculate_technical_indicators data ! i) = Fin 0"
  shows "volume_ratio (calculate_technical_indicators data ! i) = NaN"
proof -
  let ?f = "calculate_technical_indicators data ! i"
  have r: "volume_ratio ?f = fdiv (Fin (real (volume (data ! i)))) (volume_sma_20 ?f)"
    using assms(1) by (rule cti_volume_ratio)
  from assms(2) show ?thesis
  proof
    assume "volume_sma_20 ?f = NaN" then show ?thesis using r by simp
  next
    assume z: "volume_sma_20 ?f = Fin 0"
    then have "volume (data ! i) = 0" using assms(1) zero_volume_window by blast
    then show ?thesis using r z by simp
  qed
qed

lemma analyze_stock_yf_volume_ratio:
  assumes "bars \<noteq> []"
  shows "map_option (\<lambda>a. ti_volume_ratio (an_indicators a))
           (analyze_stock_yf symbol today (Some bars)) =
         Some (volume_ratio (calculate_technical_indicators bars ! (length bars - 1)))"
proof -
  have "calculate_technical_indicators bars \<noteq> []"
    using assms length_calculate_technical_indicators [of bars] by (metis length_0_conv)
  then have "last (calculate_technical_indicators bars) =
             calculate_technical_indicators bars ! (length bars - 1)"
    by (simp add: last_conv_nth length_calculate_technical_indicators)
  then show ?thesis using assms by (simp add: analyze_stock_yf_def Let_def)
qed

text \<open>
  Claim C5, as the code has it. Where \<open>volume_sma_20\<close> is missing or zero, \<open>volume_ratio\<close>
  is \<open>NaN\<close>, which is the only undefined value the pandas service has (a zero mean of
  non-negative volumes forces the day's own volume to be zero, and pandas gives
  \<open>0 / 0 = NaN\<close>); the ratio is never infinite. The \<open>NaN\<close> is not removed: it stays in the
  frame that the detector reads, and when it is on the latest row \<^verbatim>\<open>analyze_stock\<close> returns
  it as \<^verbatim>\<open>technical_indicators['volume_ratio']\<close>. The detector itself emits nothing at
  such a frame (a \<open>NaN\<close> passes neither \<open>volume_ratio > threshold\<close> nor \<^verbatim>\<open>pd.notna\<close>), and
  every signal it emits has its strength computed from a finite ratio.
\<close>

theorem volume_ratio_undefined_without_mean:
  assumes "i < length data"
  shows "(volume_sma_20 (calculate_technical_indicators data ! i) = NaN \<or>
          volume_sma_20 (calculate_technical_indicators data ! i) = Fin 0
            \<longrightarrow> volume_ratio (calculate_technical_indicators data ! i) = NaN) \<and>
         volume_ratio (calculate_technical_indicators data ! i) \<noteq> PosInf \<and>
         volume_ratio (calculate_technical_indicators data ! i) \<noteq> NegInf \<and>
         (volume_ratio (calculate_technical_indicators data ! i) = NaN
            \<longrightarrow> \<not> fgt (volume_ratio (calculate_technical_indicators data ! i)) (Fin threshold) \<and>
                surge_row (calculate_technical_indicators data ! i) = []) \<and>
         (\<forall>s \<in> set (detect_volume_surge (calculate_technical_indicators data) threshold).
            \<exists>j r. j < length data \<and> sig_date s = date (data ! j) \<and>
                  volume_ratio (calculate_technical_indicators data ! j) = Fin r \<and>
                  threshold < r \<and> strength s = min (r * 20) 100) \<and>
         map_option (\<lambda>a. ti_volume_ratio (an_indicators a))
             (analyze_stock_yf symbol today (Some data)) =
           Some (volume_ratio (calculate_technical_indicators data ! (length data - 1))) \<and>
         (i = length data - 1 \<and>
          (volume_sma_20 (calculate_technical_indicators data ! i) = NaN \<or>
           volume_sma_20 (calculate_technical_indicators data ! i) = Fin 0)
            \<longrightarrow> map_option (\<lambda>a. ti_volume_ratio (an_indicators a))
                  (analyze_stock_yf symbol today (Some data)) = Some NaN)"
proof -
  let ?f = "calculate_technical_indicators data ! i"
  have r: "volume_ratio ?f = fdiv (Fin (real (volume (data ! i)))) (volume_sma_20 ?f)"
    using assms by (rule cti_volume_ratio)
  have a: "volume_ratio ?f = NaN" if "volume_sma_20 ?f = NaN \<or> volume_sma_20 ?f = Fin 0"
    using assms that by (rule volume_ratio_nan_without_mean)
  have fin: "volume_ratio (calculate_technical_indicators data ! j) \<noteq> PosInf \<and>
             volume_ratio (calculate_technical_indicators data ! j) \<noteq> NegInf"
    if j: "j < length data" for j
  proof -
    let ?g = "calculate_technical_indicators data ! j"
    have rj: "volume_ratio ?g = fdiv (Fin (real (volume (data ! j)))) (volume_sma_20 ?g)"
      using j by (rule cti_volume_ratio)
    from cti_volume_sma_20_cases [OF j] show ?thesis
    proof
      assume "volume_sma_20 ?g = NaN" then show ?thesis using rj by simp
    next
      assume "\<exists>m. volume_sma_20 ?g = Fin m"
      then obtain m where m: "volume_sma_20 ?g = Fin m" by blast
      show ?thesis
      proof (cases "m = 0")
        case True
        then have "volume (data ! j) = 0" using m j zero_volume_window by blast
        then show ?thesis using rj m True by simp
      next
        case False
        then show ?thesis using rj m by simp
      qed
    qed
  qed
  have c: "\<not> fgt (volume_ratio ?f) (Fin threshold) \<and> surge_row ?f = []"
    if "volume_ratio ?f = NaN"
    using that by (simp add: surge_row_def)
  have d: "\<exists>j r. j < length data \<and> sig_date s = date (data ! j) \<and>
                  volume_ratio (calculate_technical_indicators data ! j) = Fin r \<and>
                  threshold < r \<and> strength s = min (r * 20) 100"
    if s: "s \<in> set (detect_volume_surge (calculate_technical_indicators data) threshold)" for s
  proof -
    from s obtain row where row: "row \<in> set (calculate_technical_indicators data)"
      "fgt (volume_ratio row) (Fin threshold)" "s \<in> set (surge_row row)"
      by (auto simp: detect_volume_surge_mem)
    from row(1) obtain j where j: "j < length data" "row = calculate_technical_indicators data ! j"
      by (auto simp: in_set_conv_nth length_calculate_technical_indicators)
    from fin [OF j(1)] row(2) j(2) obtain r where r: "volume_ratio row = Fin r"
      by (cases "volume_ratio row") auto
    have "sig_date s = date (data ! j)"
      using surge_row_props(1) [OF row(3)] j by (simp add: cti_bar_fields)
    moreover have "threshold < r" using row(2) r by simp
    moreover have "strength s = min (r * 20) 100" using surge_row_props(3) [OF row(3) r] .
    ultimately show ?thesis using j r by blast
  qed
  have ne: "data \<noteq> []" using assms by auto
  have e: "map_option (\<lambda>a. ti_volume_ratio (an_indicators a))
             (analyze_stock_yf symbol today (Some data)) =
           Some (volume_ratio (calculate_technical_indicators data ! (length data - 1)))"
    using ne by (rule analyze_stock_yf_volume_ratio)
  have f: "map_option (\<lambda>a. ti_volume_ratio (an_indicators a))
                  (analyze_stock_yf symbol today (Some data)) = Some NaN"
    if "i = length data - 1"
      and "volume_sma_20 ?f = NaN \<or> volume_sma_20 ?f = Fin 0"
    using e a [OF that(2)] that(1) by simp
  show ?thesis using a fin [OF assms] c d e f by blast
qed

theorem volume_ratio_undefined_without_mean_witness:
  "24 < length (spike_bars 25 25 0 0) \<and>
   (24::nat) = length (spike_bars 25 25 0 0) - 1 \<and>
   volume_sma_20 (calculate_technical_indicators (spike_bars 25 25 0 0) ! 24) = Fin 0 \<and>
   volume_ratio (calculate_technical_indicators (spike_bars 25 25 0 0) ! 24) = NaN \<and>
   surge_row (calculate_technical_indicators (spike_bars 25 25 0 0) ! 24) = [] \<and>
   map_option (\<lambda>a. ti_volume_ratio (an_indicators a))
     (analyze_stock_yf ''X'' 30 (Some (spike_bars 25 25 0 0))) = Some NaN"
proof -
  let ?bars = "spike_bars 25 25 0 0"
  have l: "24 < length ?bars" by (simp add: spike_bars_props)
  have n: "(24::nat) = length ?bars - 1" by (simp add: spike_bars_props)
  have "sum_list (window 20 (map (\<lambda>b. real (volume b)) ?bars) 24) = 0"
    using spike_window_sum [of ?bars 25 0 0 24] by (simp add: spike_bars_props spike_bars_nth)
  then have z: "volume_sma_20 (calculate_technical_indicators ?bars ! 24) = Fin 0"
    using l by (simp add: cti_volume_sma_20 mean_def)
  show ?thesis
    using l n z volume_ratio_undefined_without_mean [OF l, of 2 "''X''" 30] by blast
qed

text \<open>
  The claim as stated fails: on 25 days without any volume the ratio of the latest day is
  \<open>NaN\<close>, in the frame that the detector reads and in what \<^verbatim>\<open>analyze_stock\<close> returns.
\<close>

theorem volume_ratio_nan_counterexample:
  "volume_sma_20 (calculate_technical_indicators (spike_bars 25 25 0 0) ! 24) = Fin 0 \<and>
   volume_ratio (calculate_technical_indicators (spike_bars 25 25 0 0) ! 24) = NaN \<and>
   map_option (\<lambda>a. ti_volume_ratio (an_indicators a))
     (analyze_stock_yf ''X'' 30 (Some (spike_bars 25 25 0 0))) = Some NaN"
proof -
  let ?bars = "spike_bars 25 25 0 0"
  have l: "24 < length ?bars" by (simp add: spike_bars_props)
  have ne: "?bars \<noteq> []" using l by auto
  have "sum_list (window 20 (map (\<lambda>b. real (volume b)) ?bars) 24) = 0"
    using spike_window_sum [of ?bars 25 0 0 24] by (simp add: spike_bars_props spike_bars_nth)
  then have z: "volume_sma_20 (calculate_technical_indicators ?bars ! 24) = Fin 0"
    using l by (simp add: cti_volume_sma_20 mean_def)
  then have v: "volume_ratio (calculate_technical_indicators ?bars ! 24) = NaN"
    using l volume_ratio_nan_without_mean by blast
  have "map_option (\<lambda>a. ti_volume_ratio (an_indicators a))
     (analyze_stock_yf ''X'' 30 (Some ?bars)) =
     Some (volume_ratio (calculate_technical_indicators ?bars ! (length ?bars - 1)))"
    using ne by (rule analyze_stock_yf_volume_ratio)
  then have "map_option (\<lambda>a. ti_volume_ratio (an_indicators a))
     (analyze_stock_yf ''X'' 30 (Some ?bars)) = Some NaN"
    using v by (simp add: spike_bars_props)
  then show ?thesis using z v by blast
qed

text \<open>
  Claim C4, as the code has it. A series whose volume is \<open>v > 0\<close> on every day but one, and
  \<open>3 v\<close> on that day \<open>k\<close> (with 20 days of history: \<open>19 \<le> k\<close>), gives exactly one volume-surge
  signal, on day \<open>k\<close>. The trailing mean of day \<open>k\<close> contains the spike itself, so the
  ratio there is \<open>3 v / (22 v / 20) = 30 / 11\<close> and the strength is \<open>600 / 11\<close>, about
  54.55, not 60. In particular for 60 bars and \<open>k = 40\<close>.
\<close>

theorem volume_spike_round_trip:
  assumes "map volume bars = map (\<lambda>j. if j = k then 3 * v else v) [0..<length bars]"
    and "0 < v" and "19 \<le> k" and "k < length bars"
  shows "detect_volume_surge (calculate_technical_indicators bars) 2 =
           [mk_signal (bars ! k) volume_surge (600 / 11) None] \<and>
         volume_ratio (calculate_technical_indicators bars ! k) = Fin (30 / 11)"
proof -
  have vols: "\<forall>j<length bars. volume (bars ! j) = (if j = k then 3 * v else v)"
    using assms(1) by (rule volumes_nth)
  have r: "20 * real (3 * v) / (19 * real v + real (3 * v)) = 30 / 11"
    using assms(2) by (simp add: field_simps)
  have "detect_volume_surge (calculate_technical_indicators bars) 2 =
        (if 2 < 20 * real (3 * v) / (19 * real v + real (3 * v))
          then [mk_signal (bars ! k) volume_surge
                  (min (20 * real (3 * v) / (19 * real v + real (3 * v)) * 20) 100) None]
          else [])"
    using spike_surge_signals [OF vols assms(2) _ assms(3,4), of 2] by simp
  then have a: "detect_volume_surge (calculate_technical_indicators bars) 2 =
           [mk_signal (bars ! k) volume_surge (600 / 11) None]"
    unfolding r by simp
  have b: "volume_ratio (calculate_technical_indicators bars ! k) = Fin (30 / 11)"
    using spike_volume_ratio [OF vols assms(2,4)] assms(3) r by simp
  show ?thesis using a b by blast
qed

theorem volume_spike_round_trip_witness:
  "map volume (spike_bars 60 40 1000 3000) =
     map (\<lambda>j. if j = 40 then 3 * 1000 else 1000) [0..<length (spike_bars 60 40 1000 3000)] \<and>
   (0::nat) < 1000 \<and> (19::nat) \<le> 40 \<and> 40 < length (spike_bars 60 40 1000 3000) \<and>
   detect_volume_surge (calculate_technical_indicators (spike_bars 60 40 1000 3000)) 2 =
     [\<lparr>sig_date = 40, sig_type = volume_surge, strength = 600 / 11, price = 10,
       sig_volume = 3000, sig_extra = None\<rparr>]"
proof -
  let ?bars = "spike_bars 60 40 1000 3000"
  have h1: "map volume ?bars = map (\<lambda>j. if j = 40 then 3 * 1000 else 1000) [0..<length ?bars]"
    by (simp add: spike_bars_props)
  have h2: "(0::nat) < 1000" and h3: "(19::nat) \<le> 40" by simp_all
  have h4: "40 < length ?bars" by (simp add: spike_bars_props)
  have m: "mk_signal (?bars ! 40) volume_surge (600 / 11) None =
           \<lparr>sig_date = 40, sig_type = volume_surge, strength = 600 / 11, price = 10,
            sig_volume = 3000, sig_extra = None\<rparr>"
    by (simp add: mk_signal_def spike_bars_def)
  show ?thesis using h1 h2 h3 h4 volume_spike_round_trip [OF h1 h2 h3 h4] m by simp
qed

text \<open>
  The claim as stated fails: on such a series of 60 bars with the spike on day 40 the only
  signal does not have strength 60.
\<close>

theorem volume_spike_strength_counterexample:
  "map strength (detect_volume_surge (calculate_technical_indicators (spike_bars 60 40 1000 3000)) 2)
   \<noteq> [60]"
proof -
  let ?bars = "spike_bars 60 40 1000 3000"
  have vols: "\<forall>j<length ?bars. volume (?bars ! j) = (if j = 40 then 3000 else 1000)"
    by (simp add: spike_bars_props spike_bars_nth)
  have "detect_volume_surge (calculate_technical_indicators ?bars) 2 =
        [mk_signal (?bars ! 40) volume_surge (600 / 11) None]"
    using spike_surge_signals [OF vols, of 2] by (simp add: spike_bars_props)
  then show ?thesis by (simp add: mk_signal_def)
qed


text \<open>
  Claim C2, as the code has it. At an index whose \<open>volume_ratio\<close> is defined, the pandas
  service emits a volume-surge signal exactly when the ratio is strictly greater than the
  threshold (the selection is \<^verbatim>\<open>volume_ratio > threshold\<close>); the Alpha Vantage service,
  at an index from 19 on whose average volume is positive, emits one exactly when its own ratio
  is greater than or equal to the threshold. In both the strength is \<open>min (ratio * 20) 100\<close>.
  Signals are told apart by their dates, which are distinct.
\<close>

theorem volume_surge_rule:
  "(i < length data \<and> distinct (map date data) \<and> notna (volume_ratio (data ! i)) \<longrightarrow>
      ((\<exists>s \<in> set (detect_volume_surge data th). sig_date s = date (data ! i)) \<longleftrightarrow>
         fgt (volume_ratio (data ! i)) (Fin th)) \<and>
      (\<forall>s \<in> set (detect_volume_surge data th). sig_date s = date (data ! i) \<longrightarrow>
         sig_type s = volume_surge \<and>
         (\<forall>r. volume_ratio (data ! i) = Fin r \<longrightarrow> strength s = min (r * 20) 100))) \<and>
   (19 \<le> j \<and> j < length d \<and> distinct (map date d) \<and> 0 < av_avg_volume d j \<longrightarrow>
      ((\<exists>s \<in> set (calculate_volume_surge d th). sig_date s = date (d ! j)) \<longleftrightarrow>
         th \<le> real (volume (d ! j)) / av_avg_volume d j) \<and>
      (\<forall>s \<in> set (calculate_volume_surge d th). sig_date s = date (d ! j) \<longrightarrow>
         sig_type s = volume_surge \<and>
         strength s = min (real (volume (d ! j)) / av_avg_volume d j * 20) 100))"
proof (intro conjI impI)
  assume a: "i < length data \<and> distinct (map date data) \<and> notna (volume_ratio (data ! i))"
  then show "(\<exists>s \<in> set (detect_volume_surge data th). sig_date s = date (data ! i)) \<longleftrightarrow>
         fgt (volume_ratio (data ! i)) (Fin th)"
    using volume_surge_at_index(1) by blast
  show "\<forall>s \<in> set (detect_volume_surge data th). sig_date s = date (data ! i) \<longrightarrow>
         sig_type s = volume_surge \<and>
         (\<forall>r. volume_ratio (data ! i) = Fin r \<longrightarrow> strength s = min (r * 20) 100)"
  proof (intro ballI impI)
    fix s assume "s \<in> set (detect_volume_surge data th)" "sig_date s = date (data ! i)"
    then have "s \<in> set (surge_row (data ! i))"
      using a volume_surge_at_index(2) by blast
    then show "sig_type s = volume_surge \<and>
         (\<forall>r. volume_ratio (data ! i) = Fin r \<longrightarrow> strength s = min (r * 20) 100)"
      using surge_row_props(2,3) by blast
  qed
next
  assume a: "19 \<le> j \<and> j < length d \<and> distinct (map date d) \<and> 0 < av_avg_volume d j"
  then show "(\<exists>s \<in> set (calculate_volume_surge d th). sig_date s = date (d ! j)) \<longleftrightarrow>
         th \<le> real (volume (d ! j)) / av_avg_volume d j"
    using av_volume_surge_at_index(1) by blast
  show "\<forall>s \<in> set (calculate_volume_surge d th). sig_date s = date (d ! j) \<longrightarrow>
         sig_type s = volume_surge \<and>
         strength s = min (real (volume (d ! j)) / av_avg_volume d j * 20) 100"
  proof (intro ballI impI)
    fix s assume "s \<in> set (calculate_volume_surge d th)" "sig_date s = date (d ! j)"
    then have "s \<in> set (av_surge_step d th j)"
      using a av_volume_surge_at_index(2) by blast
    then show "sig_type s = volume_surge \<and>
         strength s = min (real (volume (d ! j)) / av_avg_volume d j * 20) 100"
      using av_surge_step_props(2,5) by blast
  qed
qed

lemma av_avg_volume_spike: "av_avg_volume (spike_bars 60 40 10 30) 40 = 19 / 2"
  by (simp add: av_avg_volume_def spike_bars_def)

theorem volume_surge_rule_witness:
  "40 < length (calculate_technical_indicators (spike_bars 60 40 10 30)) \<and>
   distinct (map date (calculate_technical_indicators (spike_bars 60 40 10 30))) \<and>
   notna (volume_ratio (calculate_technical_indicators (spike_bars 60 40 10 30) ! 40)) \<and>
   volume_ratio (calculate_technical_indicators (spike_bars 60 40 10 30) ! 40) = Fin (30 / 11) \<and>
   (\<exists>s \<in> set (detect_volume_surge (calculate_technical_indicators (spike_bars 60 40 10 30)) 2).
      sig_date s = date (calculate_technical_indicators (spike_bars 60 40 10 30) ! 40)) \<and>
   (19::nat) \<le> 40 \<and> 40 < length (spike_bars 60 40 10 30) \<and>
   distinct (map date (spike_bars 60 40 10 30)) \<and>
   0 < av_avg_volume (spike_bars 60 40 10 30) 40 \<and>
   (2::real) \<le> real (volume (spike_bars 60 40 10 30 ! 40)) / av_avg_volume (spike_bars 60 40 10 30) 40 \<and>
   (\<exists>s \<in> set (calculate_volume_surge (spike_bars 60 40 10 30) 2).
      sig_date s = date (spike_bars 60 40 10 30 ! 40))"
proof -
  let ?bars = "spike_bars 60 40 10 30"
  let ?data = "calculate_technical_indicators ?bars"
  have h1: "40 < length ?data"
    by (simp add: length_calculate_technical_indicators spike_bars_props)
  have h2: "distinct (map date ?data)" by (simp add: cti_dates distinct_spike_dates)
  have vols: "\<forall>j<length ?bars. volume (?bars ! j) = (if j = 40 then 30 else 10)"
    by (simp add: spike_bars_props spike_bars_nth)
  have r: "volume_ratio (?data ! 40) = Fin (30 / 11)"
    using spike_volume_ratio [OF vols, of 40] by (simp add: spike_bars_props)
  then have h3: "notna (volume_ratio (?data ! 40))" by simp
  have g: "fgt (volume_ratio (?data ! 40)) (Fin 2)" using r by simp
  have k1: "(19::nat) \<le> 40" by simp
  have k2: "40 < length ?bars" by (simp add: spike_bars_props)
  have k3: "distinct (map date ?bars)" by (rule distinct_spike_dates)
  have k4: "0 < av_avg_volume ?bars 40" by (simp add: av_avg_volume_spike)
  have k5: "(2::real) \<le> real (volume (?bars ! 40)) / av_avg_volume ?bars 40"
    by (simp add: av_avg_volume_spike spike_bars_nth)
  have c1: "\<exists>s \<in> set (detect_volume_surge ?data 2). sig_date s = date (?data ! 40)"
    using volume_surge_rule [of 40 ?data 2 40 ?bars] h1 h2 h3 g by blast
  have c2: "\<exists>s \<in> set (calculate_volume_surge ?bars 2). sig_date s = date (?bars ! 40)"
    using volume_surge_rule [of 40 ?data 2 40 ?bars] k1 k2 k3 k4 k5 by blast
  show ?thesis using h1 h2 h3 r c1 k1 k2 k3 k4 k5 c2 by blast
qed

text \<open>
  The claim as stated fails on the pandas service: with 19 days of volume 9 and then a day of
  volume 19 the ratio of that day is exactly 2, and no signal is emitted.
\<close>

theorem volume_surge_threshold_counterexample:
  "volume_ratio (calculate_technical_indicators (spike_bars 20 19 9 19) ! 19) = Fin 2 \<and>
   detect_volume_surge (calculate_technical_indicators (spike_bars 20 19 9 19)) 2 = []"
proof -
  let ?bars = "spike_bars 20 19 9 19"
  have vols: "\<forall>j<length ?bars. volume (?bars ! j) = (if j = 19 then 19 else 9)"
    by (simp add: spike_bars_props spike_bars_nth)
  have a: "volume_ratio (calculate_technical_indicators ?bars ! 19) = Fin 2"
    using spike_volume_ratio [OF vols, of 19] by (simp add: spike_bars_props)
  have b: "detect_volume_surge (calculate_technical_indicators ?bars) 2 = []"
    using spike_surge_signals [OF vols, of 2] by (simp add: spike_bars_props)
  show ?thesis using a b by blast
qed

section \<open>Properties of the relative strength index\<close>

lemma gain_input:
  "map (\<lambda>d. if fgt d (Fin 0) then d else Fin 0) (diff prices) =
   map (\<lambda>i. Fin (gain_at prices i)) [0..<length prices]"
  by (simp add: diff_def gain_at_def)

lemma loss_input:
  "map (\<lambda>d. fneg (if fgt (Fin 0) d then d else Fin 0)) (diff prices) =
   map (\<lambda>i. Fin (loss_at prices i)) [0..<length prices]"
  by (simp add: diff_def loss_at_def)

lemma mean_nonneg: "(\<And>x. x \<in> set xs \<Longrightarrow> 0 \<le> x) \<Longrightarrow> 0 \<le> mean xs"
  by (simp add: mean_def sum_list_nonneg)

lemma rsi_gain_nth:
  assumes "i < length prices"
  shows "rsi_gain prices period ! i =
         (if i + 1 < period then NaN
          else Fin (mean (window period (map (gain_at prices) [0..<length prices]) i)))"
  using assms rolling_map_Fin [of i "[0..<length prices]" mean period "gain_at prices"]
  by (simp add: rsi_gain_def gain_input rolling_mean_def)

lemma rsi_loss_nth:
  assumes "i < length prices"
  shows "rsi_loss prices period ! i =
         (if i + 1 < period then NaN
          else Fin (mean (window period (map (loss_at prices) [0..<length prices]) i)))"
  using assms rolling_map_Fin [of i "[0..<length prices]" mean period "loss_at prices"]
  by (simp add: rsi_loss_def loss_input rolling_mean_def)

lemma window_nonneg:
  "(\<And>x. x \<in> set xs \<Longrightarrow> 0 \<le> x) \<Longrightarrow> y \<in> set (window w xs i) \<Longrightarrow> (0::real) \<le> y"
  by (auto simp: window_def dest!: in_set_takeD in_set_dropD)

lemma rsi_gain_cases:
  assumes "i < length prices"
  shows "rsi_gain prices period ! i = NaN \<or> (\<exists>g\<ge>0. rsi_gain prices period ! i = Fin g)"
proof -
  have "0 \<le> x" if "x \<in> set (map (gain_at prices) [0..<length prices])" for x
    using that by (auto simp: gain_at_def)
  then have "0 \<le> y" if "y \<in> set (window period (map (gain_at prices) [0..<length prices]) i)" for y
    using that window_nonneg by blast
  then have "0 \<le> mean (window period (map (gain_at prices) [0..<length prices]) i)"
    by (rule mean_nonneg)
  then show ?thesis using assms by (simp add: rsi_gain_nth)
qed

lemma rsi_loss_cases:
  assumes "i < length prices"
  shows "rsi_loss prices period ! i = NaN \<or> (\<exists>l\<ge>0. rsi_loss prices period ! i = Fin l)"
proof -
  have "0 \<le> x" if "x \<in> set (map (loss_at prices) [0..<length prices])" for x
    using that by (auto simp: loss_at_def)
  then have "0 \<le> y" if "y \<in> set (window period (map (loss_at prices) [0..<length prices]) i)" for y
    using that window_nonneg by blast
  then have "0 \<le> mean (window period (map (loss_at prices) [0..<length prices]) i)"
    by (rule mean_nonneg)
  then show ?thesis using assms by (simp add: rsi_loss_nth)
qed

lemma length_rsi_gain: "length (rsi_gain prices period) = length prices"
  by (simp add: rsi_gain_def rolling_mean_def length_rolling diff_def)

lemma length_rsi_loss: "length (rsi_loss prices period) = length prices"
  by (simp add: rsi_loss_def rolling_mean_def length_rolling diff_def)

lemma calculate_rsi_nth:
  assumes "i < length prices"
  shows "calculate_rsi prices period ! i =
         fsub (Fin 100) (fdiv (Fin 100)
           (fadd (Fin 1) (fdiv (rsi_gain prices period ! i) (rsi_loss prices period ! i))))"
  using assms by (simp add: calculate_rsi_def length_rsi_gain length_rsi_loss Let_def)

lemma rsi_of_range:
  assumes "gain = NaN \<or> (\<exists>g\<ge>0. gain = Fin g)" and "loss = NaN \<or> (\<exists>l\<ge>0. loss = Fin l)"
  shows "rsi_of gain loss = NaN \<or> (\<exists>v. rsi_of gain loss = Fin v \<and> 0 \<le> v \<and> v \<le> 100)"
proof -
  consider "gain = NaN" | "loss = NaN" | g l where "gain = Fin g" "loss = Fin l" "0 \<le> g" "0 \<le> l"
    using assms by blast
  then show ?thesis
  proof cases
    case 1 then show ?thesis by (simp add: rsi_of_def fsub_def)
  next
    case 2 then show ?thesis by (cases gain) (simp_all add: rsi_of_def fsub_def)
  next
    case 3
    show ?thesis
    proof (cases "l = 0")
      case True
      then show ?thesis using 3 by (cases "g = 0") (simp_all add: rsi_of_def fsub_def)
    next
      case False
      then have l: "0 < l" using 3 by simp
      have q: "0 \<le> g / l" using 3 l by simp
      then have p: "0 < 1 + g / l" by linarith
      have "100 / (1 + g / l) \<le> 100" using q by (simp add: divide_le_eq)
      moreover have "0 \<le> 100 / (1 + g / l)" using p by simp
      ultimately show ?thesis using 3 False p by (simp add: rsi_of_def fsub_def)
    qed
  qed
qed

lemma rsi_of_zero_loss: "0 < g \<Longrightarrow> rsi_of (Fin g) (Fin 0) = Fin 100"
  by (simp add: rsi_of_def fsub_def)

lemma cti_rsi:
  assumes "i < length data"
  shows "rsi (calculate_technical_indicators data ! i) =
         rsi_of (rsi_gain (map close data) 14 ! i) (rsi_loss (map close data) 14 ! i)"
proof -
  have "rsi (calculate_technical_indicators data ! i) = calculate_rsi (map close data) 14 ! i"
    using assms by (auto simp: calculate_technical_indicators_def Let_def)
  then show ?thesis using assms by (simp add: calculate_rsi_nth rsi_of_def)
qed


text \<open>
  Claim C7. Where \<open>rsi\<close> is defined its value lies between 0 and 100, and it is never
  infinite; where the average loss of the last 14 days is 0 and the average gain is positive,
  the quotient \<open>gain / loss\<close> is \<open>+\<infinity>\<close> in pandas and the index is exactly 100.
\<close>

theorem rsi_range_and_zero_loss:
  assumes "i < length data"
  shows "(\<forall>v. rsi (calculate_technical_indicators data ! i) = Fin v \<longrightarrow> 0 \<le> v \<and> v \<le> 100) \<and>
         rsi (calculate_technical_indicators data ! i) \<noteq> PosInf \<and>
         rsi (calculate_technical_indicators data ! i) \<noteq> NegInf \<and>
         (\<forall>g. rsi_loss (map close data) 14 ! i = Fin 0 \<and>
              rsi_gain (map close data) 14 ! i = Fin g \<and> 0 < g
                \<longrightarrow> rsi (calculate_technical_indicators data ! i) = Fin 100)"
proof -
  let ?gain = "rsi_gain (map close data) 14 ! i"
  let ?loss = "rsi_loss (map close data) 14 ! i"
  have i: "i < length (map close data)" using assms by simp
  have r: "rsi (calculate_technical_indicators data ! i) = rsi_of ?gain ?loss"
    using assms by (rule cti_rsi)
  have "rsi_of ?gain ?loss = NaN \<or> (\<exists>v. rsi_of ?gain ?loss = Fin v \<and> 0 \<le> v \<and> v \<le> 100)"
    using rsi_gain_cases [OF i] rsi_loss_cases [OF i] by (rule rsi_of_range)
  then have a: "(\<forall>v. rsi_of ?gain ?loss = Fin v \<longrightarrow> 0 \<le> v \<and> v \<le> 100) \<and>
     rsi_of ?gain ?loss \<noteq> PosInf \<and> rsi_of ?gain ?loss \<noteq> NegInf"
    by auto
  have b: "\<forall>g. ?loss = Fin 0 \<and> ?gain = Fin g \<and> 0 < g \<longrightarrow> rsi_of ?gain ?loss = Fin 100"
    by (simp add: rsi_of_zero_loss)
  show ?thesis unfolding r using a b by blast
qed

lemma rising_gain_loss:
  assumes "j < n"
  shows "gain_at (map close (rising_bars n)) j = (if j = 0 then 0 else 1)"
    and "loss_at (map close (rising_bars n)) j = 0"
  using assms by (simp_all add: gain_at_def loss_at_def rising_bars_def)

lemma rising_windows:
  "mean (window 14 (map (gain_at (map close (rising_bars 20))) [0..<20]) 15) = 1"
  "mean (window 14 (map (loss_at (map close (rising_bars 20))) [0..<20]) 15) = 0"
proof -
  have g: "map (gain_at (map close (rising_bars 20))) [0..<20] = map (\<lambda>j. if j = 0 then 0 else 1) [0..<20]"
    by (rule map_cong) (simp_all add: rising_gain_loss)
  have l: "map (loss_at (map close (rising_bars 20))) [0..<20] = map (\<lambda>j. 0) [0..<20]"
    by (rule map_cong) (simp_all add: rising_gain_loss)
  show "mean (window 14 (map (gain_at (map close (rising_bars 20))) [0..<20]) 15) = 1"
    unfolding g by (simp add: window_def upt_rec mean_def)
  show "mean (window 14 (map (loss_at (map close (rising_bars 20))) [0..<20]) 15) = 0"
    unfolding l by (simp add: window_def upt_rec mean_def)
qed

theorem rsi_range_and_zero_loss_witness:
  "15 < length (rising_bars 20) \<and>
   rsi_loss (map close (rising_bars 20)) 14 ! 15 = Fin 0 \<and>
   rsi_gain (map close (rising_bars 20)) 14 ! 15 = Fin 1 \<and> (0::real) < 1 \<and>
   rsi (calculate_technical_indicators (rising_bars 20) ! 15) = Fin 100"
proof -
  have h: "15 < length (rising_bars 20)" by (simp add: rising_bars_def)
  have n: "length (map close (rising_bars 20)) = 20" by (simp add: rising_bars_def)
  have i15: "15 < length (map close (rising_bars 20))" by (simp add: rising_bars_def)
  have l: "rsi_loss (map close (rising_bars 20)) 14 ! 15 = Fin 0"
    using rsi_loss_nth [OF i15, of 14] unfolding n rising_windows by simp
  have g: "rsi_gain (map close (rising_bars 20)) 14 ! 15 = Fin 1"
    using rsi_gain_nth [OF i15, of 14] unfolding n rising_windows by simp
  have "rsi (calculate_technical_indicators (rising_bars 20) ! 15) = Fin 100"
    using rsi_range_and_zero_loss [OF h] l g by simp
  then show ?thesis using h l g by simp
qed

section \<open>Properties of the exponentially weighted means\<close>

lemma length_ewm_loop: "length (ewm_loop alpha w d xs) = length xs"
  by (induction xs arbitrary: w d) (auto simp: Let_def)

lemma length_ewm_mean: "length (ewm_mean n xs) = length xs"
  by (cases xs) (simp_all add: ewm_mean_def length_ewm_loop)

lemma ewm_mean_first: "xs \<noteq> [] \<Longrightarrow> ewm_mean n xs ! 0 = xs ! 0"
  by (cases xs) (simp_all add: ewm_mean_def)

lemma ewm_loop_closed:
  assumes "0 \<le> q" "0 < D" "j < length rest"
  shows "ewm_loop (1 - q) (N / D) D rest ! j =
         (q ^ Suc j * N + (\<Sum>k\<le>j. q ^ k * rest ! (j - k))) /
         (q ^ Suc j * D + (\<Sum>k\<le>j. q ^ k))"
  using assms
proof (induction rest arbitrary: N D j)
  case Nil
  then show ?case by simp
next
  case (Cons cur rest)
  let ?N = "q * N + cur" and ?D = "q * D + 1"
  have D': "0 < ?D" using Cons.prems by (simp add: add_nonneg_pos)
  have step: "ewm_loop (1 - q) (N / D) D (cur # rest) =
              (?N / ?D) # ewm_loop (1 - q) (?N / ?D) ?D rest"
    using Cons.prems by (simp add: Let_def mult.commute)
  show ?case
  proof (cases j)
    case 0
    then show ?thesis using step by simp
  next
    case (Suc j')
    then have j': "j' < length rest" using Cons.prems by simp
    have "ewm_loop (1 - q) (N / D) D (cur # rest) ! j = ewm_loop (1 - q) (?N / ?D) ?D rest ! j'"
      using step Suc by simp
    also have "\<dots> = (q ^ Suc j' * ?N + (\<Sum>k\<le>j'. q ^ k * rest ! (j' - k))) /
                      (q ^ Suc j' * ?D + (\<Sum>k\<le>j'. q ^ k))"
      using Cons.IH [OF Cons.prems(1) D' j'] .
    also have "q ^ Suc j' * ?N + (\<Sum>k\<le>j'. q ^ k * rest ! (j' - k)) =
               q ^ Suc j * N + (\<Sum>k\<le>j. q ^ k * (cur # rest) ! (j - k))"
    proof -
      have "(\<Sum>k\<le>j. q ^ k * (cur # rest) ! (j - k)) =
            (\<Sum>k\<le>j'. q ^ k * (cur # rest) ! (j - k)) + q ^ j * cur"
        using Suc by simp
      also have "(\<Sum>k\<le>j'. q ^ k * (cur # rest) ! (j - k)) = (\<Sum>k\<le>j'. q ^ k * rest ! (j' - k))"
        using Suc by (intro sum.cong) (auto simp: Suc_diff_le)
      finally show ?thesis using Suc by (simp add: algebra_simps)
    qed
    also have "q ^ Suc j' * ?D + (\<Sum>k\<le>j'. q ^ k) = q ^ Suc j * D + (\<Sum>k\<le>j. q ^ k)"
      using Suc by (simp add: algebra_simps)
    finally show ?thesis .
  qed
qed

lemma ewm_mean_closed:
  assumes "1 \<le> n" "t < length xs"
  shows "ewm_mean n xs ! t = ewm_closed (2 / (real n + 1)) xs t"
proof (cases xs)
  case Nil
  then show ?thesis using assms by simp
next
  case (Cons x rest)
  let ?a = "2 / (real n + 1)"
  let ?q = "1 - ?a"
  have q: "0 \<le> ?q" using assms(1) by simp
  show ?thesis
  proof (cases t)
    case 0
    then show ?thesis using Cons by (simp add: ewm_mean_def ewm_closed_def)
  next
    case (Suc j)
    then have j: "j < length rest" using assms(2) Cons by simp
    have "ewm_mean n xs ! t = ewm_loop (1 - ?q) (x / 1) 1 rest ! j"
      using Cons Suc by (simp add: ewm_mean_def)
    also have "\<dots> = (?q ^ Suc j * x + (\<Sum>k\<le>j. ?q ^ k * rest ! (j - k))) /
                      (?q ^ Suc j * 1 + (\<Sum>k\<le>j. ?q ^ k))"
      using q j by (intro ewm_loop_closed) simp_all
    also have "?q ^ Suc j * x + (\<Sum>k\<le>j. ?q ^ k * rest ! (j - k)) =
               (\<Sum>k\<le>t. ?q ^ k * xs ! (t - k))"
    proof -
      have "(\<Sum>k\<le>t. ?q ^ k * xs ! (t - k)) =
            (\<Sum>k\<le>j. ?q ^ k * xs ! (t - k)) + ?q ^ t * xs ! 0"
        using Suc by simp
      also have "(\<Sum>k\<le>j. ?q ^ k * xs ! (t - k)) = (\<Sum>k\<le>j. ?q ^ k * rest ! (j - k))"
        using Suc Cons by (intro sum.cong) (auto simp: Suc_diff_le)
      finally show ?thesis using Suc Cons by (simp add: algebra_simps)
    qed
    also have "?q ^ Suc j * 1 + (\<Sum>k\<le>j. ?q ^ k) = (\<Sum>k\<le>t. ?q ^ k)"
      using Suc by simp
    finally show ?thesis by (simp add: ewm_closed_def)
  qed
qed


lemma calculate_macd_closed:
  assumes "1 \<le> fast" "1 \<le> slow" "1 \<le> signal_n"
  shows "fst (calculate_macd prices fast slow signal_n) =
           map (\<lambda>t. ewm_closed (2 / (real fast + 1)) prices t -
                    ewm_closed (2 / (real slow + 1)) prices t) [0..<length prices]"
    and "i < length prices \<Longrightarrow>
         snd (calculate_macd prices fast slow signal_n) ! i =
           ewm_closed (2 / (real signal_n + 1))
             (map (\<lambda>t. ewm_closed (2 / (real fast + 1)) prices t -
                      ewm_closed (2 / (real slow + 1)) prices t) [0..<length prices]) i"
proof -
  let ?m = "map (\<lambda>t. ewm_closed (2 / (real fast + 1)) prices t -
                    ewm_closed (2 / (real slow + 1)) prices t) [0..<length prices]"
  show m: "fst (calculate_macd prices fast slow signal_n) = ?m"
    using assms
    by (intro nth_equalityI)
      (simp_all add: calculate_macd_def Let_def length_ewm_mean ewm_mean_closed)
  have "snd (calculate_macd prices fast slow signal_n) =
        ewm_mean signal_n (fst (calculate_macd prices fast slow signal_n))"
    by (simp add: calculate_macd_def Let_def)
  then show "i < length prices \<Longrightarrow>
         snd (calculate_macd prices fast slow signal_n) ! i =
           ewm_closed (2 / (real signal_n + 1)) ?m i"
    using assms by (simp add: m ewm_mean_closed)
qed

lemma cti_macd:
  assumes "i < length data"
  shows "macd (calculate_technical_indicators data ! i) =
           Fin (ewm_closed (2 / (12 + 1)) (map close data) i -
                ewm_closed (2 / (26 + 1)) (map close data) i)"
    and "macd_signal (calculate_technical_indicators data ! i) =
           Fin (ewm_closed (2 / (9 + 1))
             (map (\<lambda>t. ewm_closed (2 / (12 + 1)) (map close data) t -
                      ewm_closed (2 / (26 + 1)) (map close data) t) [0..<length data]) i)"
proof -
  have f: "fst (calculate_macd (map close data) 12 26 9) ! i =
           ewm_closed (2 / (12 + 1)) (map close data) i -
           ewm_closed (2 / (26 + 1)) (map close data) i"
    using assms calculate_macd_closed(1) [of 12 26 9 "map close data"] by simp
  have s: "snd (calculate_macd (map close data) 12 26 9) ! i =
           ewm_closed (2 / (9 + 1))
             (map (\<lambda>t. ewm_closed (2 / (12 + 1)) (map close data) t -
                      ewm_closed (2 / (26 + 1)) (map close data) t) [0..<length data]) i"
    using assms calculate_macd_closed(2) [of 12 26 9 i "map close data"] by simp
  have "macd (calculate_technical_indicators data ! i) =
        Fin (fst (calculate_macd (map close data) 12 26 9) ! i)"
    using assms by (auto simp: calculate_technical_indicators_def Let_def)
  then show "macd (calculate_technical_indicators data ! i) =
           Fin (ewm_closed (2 / (12 + 1)) (map close data) i -
                ewm_closed (2 / (26 + 1)) (map close data) i)"
    by (simp only: f)
  have "macd_signal (calculate_technical_indicators data ! i) =
        Fin (snd (calculate_macd (map close data) 12 26 9) ! i)"
    using assms by (auto simp: calculate_technical_indicators_def Let_def)
  then show "macd_signal (calculate_technical_indicators data ! i) =
           Fin (ewm_closed (2 / (9 + 1))
             (map (\<lambda>t. ewm_closed (2 / (12 + 1)) (map close data) t -
                      ewm_closed (2 / (26 + 1)) (map close data) t) [0..<length data]) i)"
    by (simp only: s)
qed

lemma ewm_closed_0: "ewm_closed alpha xs 0 = xs ! 0"
  by (simp add: ewm_closed_def)

lemma cti_macd_first:
  assumes "data \<noteq> []"
  shows "macd (calculate_technical_indicators data ! 0) = Fin 0"
    and "macd_signal (calculate_technical_indicators data ! 0) = Fin 0"
proof -
  have l: "0 < length data" using assms by simp
  show "macd (calculate_technical_indicators data ! 0) = Fin 0"
    using cti_macd(1) [OF l] by (simp add: ewm_closed_0)
  have "map (\<lambda>t. ewm_closed (2 / (12 + 1)) (map close data) t -
                      ewm_closed (2 / (26 + 1)) (map close data) t) [0..<length data] ! 0 = 0"
    using l by (simp add: ewm_closed_0 del: upt_Suc)
  then show "macd_signal (calculate_technical_indicators data ! 0) = Fin 0"
    using cti_macd(2) [OF l] by (simp only: ewm_closed_0)
qed

text \<open>
  Claim C6, as the code has it. \<open>macd\<close> and \<open>macd_signal\<close> are defined at every index,
  from the first bar on, where both are 0: they are pandas' exponentially weighted means with
  factor \<open>2 / (span + 1)\<close>, that is weighted averages of all values so far, the first
  value included, with no seeding by a simple mean and no period without a value.
\<close>

theorem macd_defined_from_first_bar:
  assumes "i < length data"
  shows "macd (calculate_technical_indicators data ! i) =
           Fin (ewm_closed (2 / (12 + 1)) (map close data) i -
                ewm_closed (2 / (26 + 1)) (map close data) i) \<and>
         macd_signal (calculate_technical_indicators data ! i) =
           Fin (ewm_closed (2 / (9 + 1))
             (map (\<lambda>t. ewm_closed (2 / (12 + 1)) (map close data) t -
                      ewm_closed (2 / (26 + 1)) (map close data) t) [0..<length data]) i) \<and>
         notna (macd (calculate_technical_indicators data ! i)) \<and>
         notna (macd_signal (calculate_technical_indicators data ! i)) \<and>
         macd (calculate_technical_indicators data ! 0) = Fin 0 \<and>
         macd_signal (calculate_technical_indicators data ! 0) = Fin 0"
proof -
  have ne: "data \<noteq> []" using assms by auto
  show ?thesis
    using cti_macd [OF assms] cti_macd_first [OF ne] by simp
qed

theorem macd_defined_from_first_bar_witness:
  "1 < length (rising_bars 3) \<and>
   macd (calculate_technical_indicators (rising_bars 3) ! 1) = Fin (7 / 312) \<and>
   notna (macd (calculate_technical_indicators (rising_bars 3) ! 1)) \<and>
   notna (macd_signal (calculate_technical_indicators (rising_bars 3) ! 1)) \<and>
   macd (calculate_technical_indicators (rising_bars 3) ! 0) = Fin 0 \<and>
   macd_signal (calculate_technical_indicators (rising_bars 3) ! 0) = Fin 0"
proof -
  have h: "1 < length (rising_bars 3)" by (simp add: rising_bars_def)
  have c: "map close (rising_bars 3) = [10, 11, 12]"
    by (simp add: rising_bars_def upt_rec)
  have f: "ewm_closed (2 / (12 + 1)) [10, 11, 12] 1 = 253 / 24"
    and s: "ewm_closed (2 / (26 + 1)) [10, 11, 12] 1 = 547 / 52"
    by (simp_all add: ewm_closed_def)
  from macd_defined_from_first_bar [OF h]
  have "macd (calculate_technical_indicators (rising_bars 3) ! 1) =
        Fin (ewm_closed (2 / (12 + 1)) (map close (rising_bars 3)) 1 -
             ewm_closed (2 / (26 + 1)) (map close (rising_bars 3)) 1)"
    by blast
  then have v: "macd (calculate_technical_indicators (rising_bars 3) ! 1) = Fin (7 / 312)"
    unfolding c f s by simp
  show ?thesis using h v macd_defined_from_first_bar [OF h] by blast
qed

text \<open>
  The claim as stated fails: with a single bar of history \<open>macd\<close> and \<open>macd_signal\<close> are
  already defined.
\<close>

theorem macd_warm_up_counterexample:
  "length (rising_bars 1) = 1 \<and>
   macd (calculate_technical_indicators (rising_bars 1) ! 0) = Fin 0 \<and>
   macd_signal (calculate_technical_indicators (rising_bars 1) ! 0) = Fin 0"
proof -
  have "rising_bars 1 \<noteq> []" by (simp add: rising_bars_def)
  then show ?thesis using cti_macd_first by (simp add: rising_bars_def)
qed

section \<open>Properties of the breakout rules\<close>

lemma closes_nth:
  assumes "map close bars = map f [0..<length bars]"
  shows "\<forall>j<length bars. close (bars ! j) = f j"
proof (intro allI impI)
  fix j assume j: "j < length bars"
  then have "close (bars ! j) = map close bars ! j" by simp
  also have "\<dots> = f j" using j by (simp add: assms)
  finally show "close (bars ! j) = f j" .
qed

lemma concat_map_single:
  "concat (map (\<lambda>i. if i = k then ys else []) [a..<b]) = (if a \<le> k \<and> k < b then ys else [])"
  by (induction b) auto

lemma gap_window_upt:
  assumes "a \<le> g" "g \<le> a + 20"
  shows "map (\<lambda>j. if j < g then p else h) [a..<a + 20] = gap_window p h (a + 20 - g)"
proof -
  have s: "[a..<a + 20] = [a..<g] @ [g..<a + 20]"
    using assms by (metis le_Suc_ex upt_add_eq_append)
  have "map (\<lambda>j. if j < g then p else h) [a..<g] = map (\<lambda>j. p) [a..<g]"
    by (rule map_cong) auto
  then have l: "map (\<lambda>j. if j < g then p else h) [a..<g] = replicate (g - a) p"
    by (simp add: map_replicate_const)
  have "map (\<lambda>j. if j < g then p else h) [g..<a + 20] = map (\<lambda>j. h) [g..<a + 20]"
    by (rule map_cong) auto
  then have r: "map (\<lambda>j. if j < g then p else h) [g..<a + 20] = replicate (a + 20 - g) h"
    by (simp add: map_replicate_const)
  have d: "20 - (a + 20 - g) = g - a" using assms by simp
  show ?thesis unfolding s map_append l r gap_window_def d by simp
qed

lemma gap_window_flat:
  assumes "a + 20 \<le> g"
  shows "map (\<lambda>j. if j < g then p else h) [a..<a + 20] = gap_window p h 0"
proof -
  have "map (\<lambda>j. if j < g then p else h) [a..<a + 20] = map (\<lambda>j. p) [a..<a + 20]"
    using assms by (intro map_cong) auto
  then have "map (\<lambda>j. if j < g then p else h) [a..<a + 20] = replicate 20 p"
    by (simp add: map_replicate_const)
  then show ?thesis by (simp add: gap_window_def)
qed

lemma av_sma_step_gap:
  assumes c: "\<forall>j<length bars. close (bars ! j) = (if j < g then p else h)"
    and i: "20 \<le> i" "i < length bars"
    and g: "20 \<le> g" "g \<le> i" "i < g + 20"
  shows "av_sma_step sma_of bars 20 i =
         (if (if i - 1 < g then p else h) \<le> sma_of (gap_window p h (i - g)) 20 \<and>
             h > sma_of (gap_window p h (i + 1 - g)) 20
          then [mk_signal (bars ! i) sma_breakout 60
                  (Some (sma_of (gap_window p h (i + 1 - g)) 20))]
          else [])"
proof -
  let ?f = "\<lambda>j. if j < g then p else h"
  have a: "map (\<lambda>j. close (bars ! j)) [i - 20..<i] = map ?f [i - 20..<i]"
    using c i by (intro map_cong) auto
  have b: "map (\<lambda>j. close (bars ! j)) [i - 19..<i + 1] = map ?f [i - 19..<i + 1]"
    using c i by (intro map_cong) auto
  have d: "close (bars ! i) = h" "close (bars ! (i - 1)) = ?f (i - 1)"
    using c i g by auto
  have e: "i - 20 + 1 = i - 19" using i by simp
  have "map ?f [i - 19..<i - 19 + 20] = gap_window p h (i - 19 + 20 - g)"
    using i g by (intro gap_window_upt) simp_all
  then have w1: "map ?f [i - 19..<i + 1] = gap_window p h (i + 1 - g)"
    using i by simp
  have "map ?f [i - 20..<i - 20 + 20] = gap_window p h (i - 20 + 20 - g)"
    using i g by (intro gap_window_upt) simp_all
  then have w0: "map ?f [i - 20..<i] = gap_window p h (i - g)"
    using i by simp
  show ?thesis
    unfolding av_sma_step_def Let_def e a b d w0 w1 by simp
qed

lemma av_sma_step_before_gap:
  assumes c: "\<forall>j<length bars. close (bars ! j) = (if j < g then p else h)"
    and i: "20 \<le> i" "i < length bars" "i < g"
  shows "av_sma_step sma_of bars 20 i = []"
proof -
  let ?f = "\<lambda>j. if j < g then p else h"
  have a: "map (\<lambda>j. close (bars ! j)) [i - 20..<i] = map ?f [i - 20..<i]"
    using c i by (intro map_cong) auto
  have b: "map (\<lambda>j. close (bars ! j)) [i - 19..<i + 1] = map ?f [i - 19..<i + 1]"
    using c i by (intro map_cong) auto
  have d: "close (bars ! i) = p" "close (bars ! (i - 1)) = p"
    using c i by auto
  have e: "i - 20 + 1 = i - 19" using i by simp
  have "map ?f [i - 19..<i - 19 + 20] = gap_window p h 0"
    using i by (intro gap_window_flat) simp
  then have w1: "map ?f [i - 19..<i + 1] = gap_window p h 0"
    using i by simp
  have "map ?f [i - 20..<i - 20 + 20] = gap_window p h 0"
    using i by (intro gap_window_flat) simp
  then have w0: "map ?f [i - 20..<i] = gap_window p h 0"
    using i by simp
  show ?thesis
    unfolding av_sma_step_def Let_def e a b d w0 w1 by simp
qed

lemma gap_sma_signals:
  assumes c: "map close bars = map (\<lambda>i. if i < g then p else h) [0..<length bars]"
    and l: "length bars = 25" and g: "20 \<le> g" "g < 25"
    and m: "\<forall>k. 1 \<le> k \<and> k \<le> 4 \<longrightarrow> sma_of (gap_window p h k) 20 < h"
  shows "calculate_sma_signals sma_of bars 20 =
         Inr (if p \<le> sma_of (gap_window p h 0) 20
              then [mk_signal (bars ! g) sma_breakout 60 (Some (sma_of (gap_window p h 1) 20))]
              else [])"
proof -
  let ?out = "if p \<le> sma_of (gap_window p h 0) 20
              then [mk_signal (bars ! g) sma_breakout 60 (Some (sma_of (gap_window p h 1) 20))]
              else []"
  have cl: "\<forall>j<length bars. close (bars ! j) = (if j < g then p else h)"
    using c by (rule closes_nth)
  have st: "av_sma_step sma_of bars 20 i = (if i = g then ?out else [])"
    if i: "i \<in> set [20..<length bars]" for i
  proof -
    have i': "20 \<le> i" "i < length bars" using i by auto
    consider "i < g" | "i = g" | "g < i" by linarith
    then show ?thesis
    proof cases
      case 1
      then show ?thesis using av_sma_step_before_gap [OF cl i'] by simp
    next
      case 2
      have lt: "sma_of (gap_window p h 1) 20 < h" using m by simp
      have "av_sma_step sma_of bars 20 g =
         (if (if g - 1 < g then p else h) \<le> sma_of (gap_window p h (g - g)) 20 \<and>
             h > sma_of (gap_window p h (g + 1 - g)) 20
          then [mk_signal (bars ! g) sma_breakout 60
                  (Some (sma_of (gap_window p h (g + 1 - g)) 20))]
          else [])"
        using av_sma_step_gap [OF cl _ _ g(1), of g sma_of] i' 2 by simp
      then show ?thesis using 2 g lt by simp
    next
      case 3
      then have k: "1 \<le> i - g" "i - g \<le> 4" using i' l g by simp_all
      then have "sma_of (gap_window p h (i - g)) 20 < h" using m by blast
      then have n: "\<not> h \<le> sma_of (gap_window p h (i - g)) 20" by simp
      have p1: "\<not> i - 1 < g" using 3 by simp
      have gi: "g \<le> i" "i < g + 20" using 3 i' l g by simp_all
      show ?thesis
        using av_sma_step_gap [OF cl i' g(1) gi, of sma_of] 3 n p1 by simp
    qed
  qed
  have mm: "map (av_sma_step sma_of bars 20) [20..<length bars] =
        map (\<lambda>i. if i = g then ?out else []) [20..<length bars]"
    using st by (intro map_cong) auto
  have "calculate_sma_signals sma_of bars 20 =
        Inr (concat (map (av_sma_step sma_of bars 20) [20..<length bars]))"
    using l by (simp add: calculate_sma_signals_def)
  also have "\<dots> = Inr (if 20 \<le> g \<and> g < length bars then ?out else [])"
    by (simp only: mm concat_map_single)
  finally show ?thesis using g l by simp
qed

lemma exact_sma_gap_window:
  "k \<le> 20 \<Longrightarrow> exact_sma (gap_window p h k) 20 = p + real k * (h - p) / 20"
  by (simp add: exact_sma_def gap_window_def sum_list_replicate of_nat_diff field_simps)

lemma cti_sma_20:
  assumes "i < length data"
  shows "sma_20 (calculate_technical_indicators data ! i) =
         (if i + 1 < 20 then NaN else Fin (mean (window 20 (map close data) i)))"
proof -
  have "sma_20 (calculate_technical_indicators data ! i) =
        rolling mean 20 (map (\<lambda>b. Fin (close b)) data) ! i"
    using assms by (auto simp: calculate_technical_indicators_def Let_def rolling_mean_def comp_def)
  then show ?thesis using assms by (simp only: rolling_map_Fin)
qed

lemma breakout_step_date:
  "s \<in> set (breakout_step data i) \<Longrightarrow> sig_date s = date (data ! i)"
  by (auto simp: breakout_step_def mk_signal_def Let_def split: if_splits)

lemma detect_breakout_signals_index:
  assumes "s \<in> set (detect_breakout_signals data)"
  shows "\<exists>i\<ge>50. i < length data \<and> sig_date s = date (data ! i)"
proof -
  from assms obtain i where "50 \<le> i" "i < length data" "s \<in> set (breakout_step data i)"
    by (auto simp: detect_breakout_signals_def split: if_splits)
  then show ?thesis using breakout_step_date by blast
qed

lemma detect_breakout_signals_short:
  "length data < 50 \<Longrightarrow> detect_breakout_signals data = []"
  by (simp add: detect_breakout_signals_def)

lemma gap_bars_props:
  "length (gap_bars g p h) = 25"
  "map close (gap_bars g p h) = map (\<lambda>i. if i < g then p else h) [0..<25]"
  by (simp_all add: gap_bars_def)

text \<open>
  Claim C3, as the code has it. Take 25 bars whose close is \<open>p\<close> before day \<open>g\<close> and
  \<open>h > p\<close> from day \<open>g\<close> on (\<open>20 \<le> g\<close>, so in particular day 21), and let the averages that
  the Alpha Vantage service computes over windows holding both prices be below \<open>h\<close>. Then its
  rule looks at no more than the 20 closes up to a day and the 20 closes before it, and it
  fires exactly once, on day \<open>g\<close>, when the computed average of twenty closes \<open>p\<close> is not below
  \<open>p\<close>; when rounding puts that average below \<open>p\<close>, it does not fire at all. The rule of
  the pandas service returns nothing on such a series, nor on any other series of fewer than
  50 frames; what it returns belongs to an index from 50 on.
\<close>

theorem sma_breakout_on_gap:
  assumes "length bars = 25"
    and "map close bars = map (\<lambda>i. if i < g then p else h) [0..<length bars]"
    and "p < h" and "20 \<le> g" and "g < 25"
    and "\<forall>k. 1 \<le> k \<and> k \<le> 4 \<longrightarrow> sma_of (gap_window p h k) 20 < h"
  shows "calculate_sma_signals sma_of bars 20 =
           Inr (if p \<le> sma_of (gap_window p h 0) 20
                then [mk_signal (bars ! g) sma_breakout 60
                        (Some (sma_of (gap_window p h 1) 20))]
                else []) \<and>
         detect_breakout_signals (calculate_technical_indicators bars) = [] \<and>
         (length data < 50 \<longrightarrow> detect_breakout_signals data = []) \<and>
         (\<forall>s \<in> set (detect_breakout_signals data).
            \<exists>i\<ge>50. i < length data \<and> sig_date s = date (data ! i))"
proof -
  have a: "calculate_sma_signals sma_of bars 20 =
           Inr (if p \<le> sma_of (gap_window p h 0) 20
                then [mk_signal (bars ! g) sma_breakout 60
                        (Some (sma_of (gap_window p h 1) 20))]
                else [])"
    using assms(2,1,4,5,6) by (rule gap_sma_signals)
  have b: "detect_breakout_signals (calculate_technical_indicators bars) = []"
    using assms(1) by (simp add: detect_breakout_signals_short length_calculate_technical_indicators)
  show ?thesis
    using a b detect_breakout_signals_short detect_breakout_signals_index by blast
qed

theorem sma_breakout_on_gap_witness:
  "length (gap_bars 21 10 12) = 25 \<and>
   map close (gap_bars 21 10 12) =
     map (\<lambda>i. if i < 21 then 10 else 12) [0..<length (gap_bars 21 10 12)] \<and>
   (10::real) < 12 \<and> (20::nat) \<le> 21 \<and> (21::nat) < 25 \<and>
   exact_sma (gap_window 10 12 1) 20 < 12 \<and> exact_sma (gap_window 10 12 2) 20 < 12 \<and>
   exact_sma (gap_window 10 12 3) 20 < 12 \<and> exact_sma (gap_window 10 12 4) 20 < 12 \<and>
   10 \<le> exact_sma (gap_window 10 12 0) 20 \<and>
   calculate_sma_signals exact_sma (gap_bars 21 10 12) 20 =
     Inr [\<lparr>sig_date = 21, sig_type = sma_breakout, strength = 60, price = 12,
           sig_volume = 1000, sig_extra = Some (101 / 10)\<rparr>] \<and>
   detect_breakout_signals (calculate_technical_indicators (gap_bars 21 10 12)) = []"
proof -
  have h1: "length (gap_bars 21 10 12) = 25" by (simp add: gap_bars_props)
  have h2: "map close (gap_bars 21 10 12) =
     map (\<lambda>i. if i < 21 then 10 else 12) [0..<length (gap_bars 21 10 12)]"
    by (simp add: gap_bars_props)
  have h3: "(10::real) < 12" and h4: "(20::nat) \<le> 21" and h5: "(21::nat) < 25" by simp_all
  have e: "exact_sma (gap_window 10 12 k) 20 = 10 + real k / 10" if "k \<le> 20" for k
    using exact_sma_gap_window [OF that, of 10 12] by simp
  have h6: "\<forall>k. 1 \<le> k \<and> k \<le> 4 \<longrightarrow> exact_sma (gap_window 10 12 k) 20 < 12"
    by (simp add: e)
  have v: "exact_sma (gap_window 10 12 1) 20 < 12" "exact_sma (gap_window 10 12 2) 20 < 12"
    "exact_sma (gap_window 10 12 3) 20 < 12" "exact_sma (gap_window 10 12 4) 20 < 12"
    "10 \<le> exact_sma (gap_window 10 12 0) 20" "exact_sma (gap_window 10 12 1) 20 = 101 / 10"
    by (simp_all add: e)
  have m: "mk_signal (gap_bars 21 10 12 ! 21) sma_breakout 60 (Some (101 / 10)) =
           \<lparr>sig_date = 21, sig_type = sma_breakout, strength = 60, price = 12,
            sig_volume = 1000, sig_extra = Some (101 / 10)\<rparr>"
    by (simp add: mk_signal_def gap_bars_def)
  from sma_breakout_on_gap [where bars = "gap_bars 21 10 12" and g = 21 and p = 10
        and h = 12 and sma_of = exact_sma, OF h1 h2 h3 h4 h5 h6]
  have r: "calculate_sma_signals exact_sma (gap_bars 21 10 12) 20 =
           Inr (if 10 \<le> exact_sma (gap_window 10 12 0) 20
                then [mk_signal (gap_bars 21 10 12 ! 21) sma_breakout 60
                        (Some (exact_sma (gap_window 10 12 1) 20))]
                else [])"
    and d: "detect_breakout_signals (calculate_technical_indicators (gap_bars 21 10 12)) = []"
    by blast+
  have c: "calculate_sma_signals exact_sma (gap_bars 21 10 12) 20 =
     Inr [\<lparr>sig_date = 21, sig_type = sma_breakout, strength = 60, price = 12,
           sig_volume = 1000, sig_extra = Some (101 / 10)\<rparr>]"
    unfolding r by (simp only: v(5) v(6) m if_True)
  show ?thesis using h1 h2 h3 h4 h5 v(1-5) c d by blast
qed

text \<open>
  The claim as stated fails on the pandas service: on day 21 of such a series the close
  crosses above \<open>sma_20\<close>, and the rule returns nothing, the series being shorter than 50.
\<close>

theorem sma_breakout_short_series_counterexample:
  "length (gap_bars 21 10 12) = 25 \<and>
   sma_break_test (calculate_technical_indicators (gap_bars 21 10 12) ! 21)
     (calculate_technical_indicators (gap_bars 21 10 12) ! 20) \<and>
   detect_breakout_signals (calculate_technical_indicators (gap_bars 21 10 12)) = []"
proof -
  let ?bars = "gap_bars 21 10 12"
  have l: "length ?bars = 25" by (simp add: gap_bars_props)
  have s20: "sma_20 (calculate_technical_indicators ?bars ! 20) = Fin 10"
    using l by (simp add: cti_sma_20 gap_bars_props window_def mean_def upt_rec)
  have s21: "sma_20 (calculate_technical_indicators ?bars ! 21) = Fin (101 / 10)"
    using l by (simp add: cti_sma_20 gap_bars_props window_def mean_def upt_rec)
  have c: "close (calculate_technical_indicators ?bars ! 20) = 10"
    "close (calculate_technical_indicators ?bars ! 21) = 12"
    using l by (simp_all add: cti_bar_fields) (simp_all add: gap_bars_def)
  have t: "sma_break_test (calculate_technical_indicators ?bars ! 21)
     (calculate_technical_indicators ?bars ! 20)"
    by (simp add: sma_break_test_def s20 s21 c)
  have e: "detect_breakout_signals (calculate_technical_indicators ?bars) = []"
    using l by (simp add: detect_breakout_signals_short length_calculate_technical_indicators)
  show ?thesis using l t e by blast
qed

section \<open>The volume spike in the Alpha Vantage service\<close>

lemma av_spike_avg:
  assumes vols: "\<forall>j<length d. volume (d ! j) = (if j = k then u else v)"
    and i: "19 \<le> i" "i < length d"
  shows "av_avg_volume d i =
         (if i - 19 \<le> k \<and> k < i then 18 * real v + real u else 19 * real v) / 20"
proof -
  let ?f = "\<lambda>j. real v + (if j = k then real u - real v else 0)"
  have "real (sum_list (map (\<lambda>j. volume (d ! j)) [i - 19..<i])) =
        sum_list (map (\<lambda>j. real (volume (d ! j))) [i - 19..<i])"
    by (simp add: sum_list_of_nat [symmetric] comp_def)
  also have "map (\<lambda>j. real (volume (d ! j))) [i - 19..<i] = map ?f [i - 19..<i]"
    using vols i by (intro map_cong) auto
  also have "sum_list (map ?f [i - 19..<i]) = sum ?f {i - 19..<i}"
    by (simp add: sum_set_upt_conv_sum_list_nat [symmetric])
  also have "\<dots> = (\<Sum>j\<in>{i - 19..<i}. real v) +
                   (\<Sum>j\<in>{i - 19..<i}. if j = k then real u - real v else 0)"
    by (rule sum.distrib)
  also have "(\<Sum>j\<in>{i - 19..<i}. real v) = 19 * real v" using i by simp
  also have "(\<Sum>j\<in>{i - 19..<i}. if j = k then real u - real v else 0) =
             (if k \<in> {i - 19..<i} then real u - real v else 0)"
    by (simp add: sum.delta)
  finally show ?thesis by (auto simp: av_avg_volume_def)
qed

text \<open>
  On a series with a single threefold volume spike the Alpha Vantage service also emits
  exactly one signal, on the day of the spike. Its average is the sum of the 19 days before the day, divided by 20, so
  the ratio of the spike is \<open>3 v / (19 v / 20) = 60 / 19\<close> and the strength \<open>1200 / 19\<close>,
  about 63.16.
\<close>

lemma av_spike_signals:
  assumes vols: "\<forall>j<length d. volume (d ! j) = (if j = k then 3 * v else v)"
    and v: "0 < v" and k: "19 \<le> k" "k < length d"
  shows "calculate_volume_surge d 2 =
         [mk_signal (d ! k) volume_surge (1200 / 19) (Some (60 / 19))]"
proof -
  have step: "av_surge_step d 2 i =
        (if i = k then [mk_signal (d ! k) volume_surge (1200 / 19) (Some (60 / 19))] else [])"
    if i: "i \<in> set [19..<length d]" for i
  proof -
    have i': "19 \<le> i" "i < length d" using i by auto
    have avg: "av_avg_volume d i =
               (if i - 19 \<le> k \<and> k < i then 18 * real v + real (3 * v) else 19 * real v) / 20"
      using vols i' by (rule av_spike_avg)
    have vi: "real (volume (d ! i)) = (if i = k then 3 * real v else real v)"
      using vols i' by simp
    show ?thesis
    proof (cases "i = k")
      case True
      have a: "av_avg_volume d k = 19 * real v / 20" using avg True by simp
      have r: "real (volume (d ! k)) / av_avg_volume d k = 60 / 19"
        using v vi True by (simp add: a)
      have p: "0 < av_avg_volume d k" using v by (simp add: a)
      show ?thesis using True p unfolding av_surge_step_def Let_def by (simp add: r)
    next
      case False
      show ?thesis
      proof (cases "i - 19 \<le> k \<and> k < i")
        case True
        then have a: "av_avg_volume d i = 21 * real v / 20" unfolding avg by auto
        have r: "real (volume (d ! i)) / av_avg_volume d i = 20 / 21"
          using v vi False by (simp add: a)
        show ?thesis using False unfolding av_surge_step_def Let_def r by simp
      next
        case n: False
        have a: "av_avg_volume d i = 19 * real v / 20" unfolding avg using n by auto
        have r: "real (volume (d ! i)) / av_avg_volume d i = 20 / 19"
          using v vi False by (simp add: a)
        show ?thesis using False unfolding av_surge_step_def Let_def r by simp
      qed
    qed
  qed
  have m: "map (av_surge_step d 2) [19..<length d] =
        map (\<lambda>i. if i = k then [mk_signal (d ! k) volume_surge (1200 / 19) (Some (60 / 19))] else [])
          [19..<length d]"
    using step by (intro map_cong) auto
  have "calculate_volume_surge d 2 = concat (map (av_surge_step d 2) [19..<length d])"
    using k by (simp add: calculate_volume_surge_def)
  also have "\<dots> = (if 19 \<le> k \<and> k < length d
                    then [mk_signal (d ! k) volume_surge (1200 / 19) (Some (60 / 19))] else [])"
    by (simp only: m concat_map_single)
  finally show ?thesis using k by simp
qed

end
